theory Spec2Isabelle
  imports Main "HOL-Library.Word" "HOL-Library.Signed_Division"
begin

unbundle bit_operations_syntax

section \<open>Shared types of the file-system layer\<close>

type_synonym byte = "8 word"

text \<open>\<^verbatim>\<open>TSK_DADDR_T\<close> and \<^verbatim>\<open>TSK_INUM_T\<close> are unsigned 64-bit integers.\<close>

type_synonym TSK_DADDR_T = "64 word"
type_synonym TSK_INUM_T = "64 word"

datatype TSK_ENDIAN_ENUM = TSK_LIT_ENDIAN | TSK_BIG_ENDIAN

text \<open>
  The file-system types the two parsers look at. \<open>TSK_FS_TYPE_FAT_UNKNOWN\<close> stands for
  any further tag for which \<^verbatim>\<open>TSK_FS_TYPE_ISFAT\<close> holds, \<open>TSK_FS_TYPE_OTHER\<close> for every
  tag for which \<^verbatim>\<open>TSK_FS_TYPE_ISFAT\<close> and \<^verbatim>\<open>TSK_FS_TYPE_ISREG\<close> are both 0.
\<close>

datatype TSK_FS_TYPE_ENUM =
    TSK_FS_TYPE_FAT12
  | TSK_FS_TYPE_FAT16
  | TSK_FS_TYPE_FAT32
  | TSK_FS_TYPE_FAT_DETECT
  | TSK_FS_TYPE_FAT_UNKNOWN
  | TSK_FS_TYPE_REG
  | TSK_FS_TYPE_OTHER

text \<open>
  The value of \<^verbatim>\<open>tsk_errno\<close> after a failing call. \<open>TSK_ERR_CALLEE\<close> stands for a failure
  on which the function itself does not assign \<^verbatim>\<open>tsk_errno\<close> (the image layer or the
  callback has left its own value there), \<open>TSK_ERR_NONE\<close> for a failure after
  \<^verbatim>\<open>tsk_error_reset\<close> with only the message set.
\<close>

datatype TSK_ERR =
    TSK_ERR_FS_ARG
  | TSK_ERR_FS_READ
  | TSK_ERR_FS_MAGIC
  | TSK_ERR_FS_WALK_RNG
  | TSK_ERR_FS_INODE_COR
  | TSK_ERR_FS_INODE_NUM
  | TSK_ERR_FS_BLK_NUM
  | TSK_ERR_FS_UNSUPFUNC
  | TSK_ERR_CALLEE
  | TSK_ERR_NONE

record TSK_FS_INFO =
  ftype :: TSK_FS_TYPE_ENUM
  endian :: TSK_ENDIAN_ENUM
  block_size :: "32 word"
  first_block :: TSK_DADDR_T
  last_block :: TSK_DADDR_T
  last_block_act :: TSK_DADDR_T
  first_inum :: TSK_INUM_T
  last_inum :: TSK_INUM_T

section \<open>The image reader\<close>

text \<open>
  \<^verbatim>\<open>tsk_fs_read(fs, off, buf, len)\<close> belongs to the framework. It is a parameter of the
  model: \<open>rd off len\<close> is \<open>None\<close> when the call returns -1 (nothing is transferred) and
  \<open>Some bs\<close> when it returns the count \<open>length bs\<close>, having stored \<open>bs\<close> at the start of
  the buffer. At most \<open>len\<close> bytes are ever stored.
\<close>

type_synonym img_reader = "64 word \<Rightarrow> nat \<Rightarrow> byte list option"

definition tsk_fs_read :: "img_reader \<Rightarrow> 64 word \<Rightarrow> byte list \<Rightarrow> nat \<Rightarrow> nat option \<times> byte list" where
  "tsk_fs_read rd off buf len =
     (case rd off len of
        None \<Rightarrow> (None, buf)
      | Some bs \<Rightarrow>
          (let got = take len bs
           in (Some (length got), got @ drop (length got) buf)))"

text \<open>
  \<^verbatim>\<open>tsk_getu16\<close> and \<^verbatim>\<open>tsk_getu32\<close> assemble an integer from consecutive bytes in the
  byte order given by the first argument.
\<close>

text \<open>
  Modelled from the spec: \<^verbatim>\<open>read_block(fs, blk, buf, len)\<close> of the framework, which is not
  part of the sources at hand; it reads \<open>len\<close> bytes at the absolute offset
  \<open>blk \<times> block_size\<close>.
\<close>

definition tsk_fs_read_block ::
  "img_reader \<Rightarrow> TSK_FS_INFO \<Rightarrow> TSK_DADDR_T \<Rightarrow> byte list \<Rightarrow> nat \<Rightarrow> nat option \<times> byte list" where
  "tsk_fs_read_block rd fs a buf len = tsk_fs_read rd (a * ucast (block_size fs)) buf len"

text \<open>The errno of a read that did not deliver \<open>len\<close> bytes: set to READ unless the count is negative.\<close>

definition read_errno :: "nat option \<Rightarrow> TSK_ERR" where
  "read_errno cnt = (if cnt = None then TSK_ERR_CALLEE else TSK_ERR_FS_READ)"

definition tsk_getu16 :: "TSK_ENDIAN_ENUM \<Rightarrow> byte list \<Rightarrow> 16 word" where
  "tsk_getu16 e bs =
     (case e of
        TSK_LIT_ENDIAN \<Rightarrow> ucast (bs ! 0) + push_bit 8 (ucast (bs ! 1))
      | TSK_BIG_ENDIAN \<Rightarrow> ucast (bs ! 1) + push_bit 8 (ucast (bs ! 0)))"

definition tsk_getu32 :: "TSK_ENDIAN_ENUM \<Rightarrow> byte list \<Rightarrow> 32 word" where
  "tsk_getu32 e bs =
     (case e of
        TSK_LIT_ENDIAN \<Rightarrow>
          ucast (bs ! 0) + push_bit 8 (ucast (bs ! 1)) +
          push_bit 16 (ucast (bs ! 2)) + push_bit 24 (ucast (bs ! 3))
      | TSK_BIG_ENDIAN \<Rightarrow>
          ucast (bs ! 3) + push_bit 8 (ucast (bs ! 2)) +
          push_bit 16 (ucast (bs ! 1)) + push_bit 24 (ucast (bs ! 0)))"

section \<open>FAT: the handle and the sector cache\<close>

text \<open>
  \<^verbatim>\<open>FAT_CACHE_N\<close> (slots), \<^verbatim>\<open>FAT_CACHE_S\<close> (sectors per slot) and \<^verbatim>\<open>FAT_CACHE_B\<close>
  (bytes per slot) are constants of the header \<^verbatim>\<open>tsk_fatfs.h\<close>; the model takes them as
  parameters.
\<close>

record fat_cache_consts =
  FAT_CACHE_N :: nat
  FAT_CACHE_S :: nat
  FAT_CACHE_B :: nat

record FATFS_INFO =
  fs_info :: TSK_FS_INFO
  firstfatsect :: TSK_DADDR_T
  firstdatasect :: TSK_DADDR_T
  firstclustsect :: TSK_DADDR_T
  clustcnt :: TSK_DADDR_T
  lastclust :: TSK_DADDR_T
  rootsect :: TSK_DADDR_T
  sectperfat :: "32 word"
  numroot :: "16 word"
  ssize :: "16 word"
  ssize_sh :: "16 word"
  csize :: "8 word"
  numfat :: "8 word"
  mask_fat :: "32 word"
  fatc_buf :: "byte list list"
  fatc_addr :: "TSK_DADDR_T list"
  fatc_ttl :: "nat list"

text \<open>The test of the first loop of \<^verbatim>\<open>getFATCacheIdx\<close>: slot \<open>i\<close> holds sector \<open>sect\<close>.\<close>

definition cache_hit :: "fat_cache_consts \<Rightarrow> FATFS_INFO \<Rightarrow> TSK_DADDR_T \<Rightarrow> nat \<Rightarrow> bool" where
  "cache_hit K fatfs sect i \<longleftrightarrow>
     fatc_ttl fatfs ! i > 0 \<and> sect \<ge> fatc_addr fatfs ! i \<and>
     sect < fatc_addr fatfs ! i + of_nat (FAT_CACHE_S K)"

text \<open>
  One round of the loops that update the TTLs: slot \<open>a\<close> is aged when it is in use and
  younger than slot \<open>i\<close>.
\<close>

definition ttl_step :: "nat \<Rightarrow> nat \<Rightarrow> nat list \<Rightarrow> nat list" where
  "ttl_step i a ttl =
     (if ttl ! a = 0 then ttl
      else if ttl ! a < ttl ! i then ttl[a := ttl ! a + 1]
      else ttl)"

definition ttl_push :: "nat \<Rightarrow> nat \<Rightarrow> nat list \<Rightarrow> nat list" where
  "ttl_push N i ttl = fold (ttl_step i) [0..<N] ttl"

text \<open>The victim search: the last slot that is unused or has a TTL of at least N; slot 0 if none.\<close>

definition cache_victim :: "nat \<Rightarrow> nat list \<Rightarrow> nat" where
  "cache_victim N ttl =
     fold (\<lambda>i cidx. if ttl ! i = 0 \<or> ttl ! i \<ge> N then i else cidx) [0..<N] 0"

text \<open>
  \<^verbatim>\<open>getFATCacheIdx\<close>: \<open>Inl e\<close> is the return value -1 with \<^verbatim>\<open>tsk_errno = e\<close>, \<open>Inr cidx\<close>
  the slot index. The handle is returned in both cases: a short read has already
  overwritten the start of the victim's buffer.
\<close>

definition getFATCacheIdx ::
  "fat_cache_consts \<Rightarrow> img_reader \<Rightarrow> FATFS_INFO \<Rightarrow> TSK_DADDR_T \<Rightarrow> (TSK_ERR + nat) \<times> FATFS_INFO" where
  "getFATCacheIdx K rd fatfs sect =
     (case find (cache_hit K fatfs sect) [0..<FAT_CACHE_N K] of
        Some i \<Rightarrow>
          (Inr i, fatfs\<lparr>fatc_ttl := (ttl_push (FAT_CACHE_N K) i (fatc_ttl fatfs))[i := 1]\<rparr>)
      | None \<Rightarrow>
          (let cidx = cache_victim (FAT_CACHE_N K) (fatc_ttl fatfs);
               (cnt, buf) = tsk_fs_read rd (sect * ucast (block_size (fs_info fatfs)))
                              (fatc_buf fatfs ! cidx) (FAT_CACHE_B K);
               fatfs1 = fatfs\<lparr>fatc_buf := (fatc_buf fatfs)[cidx := buf]\<rparr>
           in if cnt \<noteq> Some (FAT_CACHE_B K)
              then (Inl (read_errno cnt), fatfs1)
              else
                (let ttl1 = (if fatc_ttl fatfs1 ! cidx = 0
                             then (fatc_ttl fatfs1)[cidx := FAT_CACHE_N K + 1]
                             else fatc_ttl fatfs1);
                     ttl2 = ttl_push (FAT_CACHE_N K) cidx ttl1
                 in (Inr cidx,
                     fatfs1\<lparr>fatc_ttl := ttl2[cidx := 1],
                            fatc_addr := (fatc_addr fatfs1)[cidx := sect]\<rparr>))))"

section \<open>FAT: the chain resolver\<close>

text \<open>The masks of \<^verbatim>\<open>tsk_fatfs.h\<close>, with the values the specification gives them.\<close>

definition FATFS_12_MASK :: "32 word" where "FATFS_12_MASK = 0x00000fff"
definition FATFS_16_MASK :: "32 word" where "FATFS_16_MASK = 0x0000ffff"
definition FATFS_32_MASK :: "32 word" where "FATFS_32_MASK = 0x0fffffff"

text \<open>
  The sanity check at the end of each branch of \<^verbatim>\<open>fatfs_getFAT\<close>: a value above the last
  cluster and below \<^verbatim>\<open>0x0ffffff7 & mask\<close> is reset to 0.
\<close>

definition fat_sanity :: "FATFS_INFO \<Rightarrow> 32 word \<Rightarrow> TSK_DADDR_T \<Rightarrow> TSK_DADDR_T" where
  "fat_sanity fatfs m v =
     (if v > lastclust fatfs \<and> v < ucast ((0x0ffffff7 :: 32 word) AND m) then 0 else v)"

text \<open>
  The read of a FAT entry from slot \<open>cidx\<close> at byte offset \<open>offs\<close>. A read that would leave
  the slot buffer has no defined behaviour in C: the result is \<open>None\<close>.
\<close>

definition fatc_bytes :: "FATFS_INFO \<Rightarrow> nat \<Rightarrow> TSK_DADDR_T \<Rightarrow> nat \<Rightarrow> byte list option" where
  "fatc_bytes fatfs cidx offs n =
     (if cidx < length (fatc_buf fatfs) \<and> unat offs + n \<le> length (fatc_buf fatfs ! cidx)
      then Some (take n (drop (unat offs) (fatc_buf fatfs ! cidx)))
      else None)"

text \<open>
  The test in front of the FAT12 branch (\<^verbatim>\<open>clust & 0xf000\<close>); when it holds the call fails
  with the message that the cluster is too large.
\<close>

definition fat12_cluster_too_large :: "TSK_DADDR_T \<Rightarrow> bool" where
  "fat12_cluster_too_large clust \<longleftrightarrow> clust AND 0xf000 \<noteq> 0"

text \<open>
  The end of the FAT12 branch: the 16 bits at \<open>offs\<close> of slot \<open>cidx\<close>, shifted for an odd
  cluster, masked and checked.
\<close>

definition fat12_entry ::
  "FATFS_INFO \<Rightarrow> nat \<Rightarrow> TSK_DADDR_T \<Rightarrow> TSK_DADDR_T \<Rightarrow>
     (TSK_ERR option \<times> TSK_DADDR_T \<times> FATFS_INFO) option" where
  "fat12_entry fatfs cidx offs clust =
     (case fatc_bytes fatfs cidx offs 2 of
        None \<Rightarrow> None
      | Some a_ptr \<Rightarrow>
          (let tmp16 = tsk_getu16 (endian (fs_info fatfs)) a_ptr;
               tmp16' = (if clust AND 1 \<noteq> 0 then drop_bit 4 tmp16 else tmp16);
               v = ucast (ucast tmp16' AND FATFS_12_MASK)
           in Some (None, fat_sanity fatfs FATFS_12_MASK v, fatfs)))"

text \<open>
  \<^verbatim>\<open>fatfs_getFAT(fatfs, clust, value)\<close>. The argument \<open>val\<close> is what \<^verbatim>\<open>*value\<close> holds at the
  call. The result is \<open>None\<close> where C leaves the behaviour undefined (a shift by 64 or more,
  a division by zero, a read beyond a slot buffer); otherwise it is the triple of the return
  value (\<open>None\<close> for 0, \<open>Some e\<close> for 1 with \<^verbatim>\<open>tsk_errno = e\<close>), the content of
  \<^verbatim>\<open>*value\<close> and the handle at the return.
\<close>

definition fatfs_getFAT ::
  "fat_cache_consts \<Rightarrow> img_reader \<Rightarrow> FATFS_INFO \<Rightarrow> TSK_DADDR_T \<Rightarrow> TSK_DADDR_T \<Rightarrow>
     (TSK_ERR option \<times> TSK_DADDR_T \<times> FATFS_INFO) option" where
  "fatfs_getFAT K rd fatfs clust val =
     (let fs = fs_info fatfs; sh = unat (ssize_sh fatfs) in
      if clust > lastclust fatfs then
        (if clust = lastclust fatfs + 1 \<and>
            firstclustsect fatfs + ucast (csize fatfs) * clustcnt fatfs - 1 \<noteq> last_block fs
         then Some (None, val, fatfs)
         else Some (Some TSK_ERR_FS_ARG, val, fatfs))
      else
        (case ftype fs of
           TSK_FS_TYPE_FAT12 \<Rightarrow>
             if fat12_cluster_too_large clust then Some (Some TSK_ERR_FS_ARG, val, fatfs)
             else if 64 \<le> sh \<or> ssize fatfs = 0 then None
             else
               (let sect = firstfatsect fatfs + drop_bit sh (clust + drop_bit 1 clust) in
                case getFATCacheIdx K rd fatfs sect of
                  (Inl e, fatfs1) \<Rightarrow> Some (Some e, val, fatfs1)
                | (Inr cidx, fatfs1) \<Rightarrow>
                    (let offs = push_bit sh (sect - fatc_addr fatfs1 ! cidx) +
                                (clust + drop_bit 1 clust) mod ucast (ssize fatfs)
                     in if offs = of_nat (FAT_CACHE_B K) - 1
                        then
                          (let (cnt, buf) = tsk_fs_read rd (sect * ucast (block_size fs))
                                              (fatc_buf fatfs1 ! cidx) (FAT_CACHE_B K);
                               fatfs2 = fatfs1\<lparr>fatc_buf := (fatc_buf fatfs1)[cidx := buf]\<rparr>
                           in if cnt \<noteq> Some (FAT_CACHE_B K)
                              then Some (Some (read_errno cnt), val, fatfs2)
                              else fat12_entry
                                     (fatfs2\<lparr>fatc_addr := (fatc_addr fatfs2)[cidx := sect]\<rparr>) cidx
                                     ((clust + drop_bit 1 clust) mod ucast (ssize fatfs)) clust)
                        else fat12_entry fatfs1 cidx offs clust))
         | TSK_FS_TYPE_FAT16 \<Rightarrow>
             if 64 \<le> sh \<or> ssize fatfs = 0 then None
             else
               (let sect = firstfatsect fatfs + drop_bit sh (push_bit 1 clust) in
                case getFATCacheIdx K rd fatfs sect of
                  (Inl e, fatfs1) \<Rightarrow> Some (Some e, val, fatfs1)
                | (Inr cidx, fatfs1) \<Rightarrow>
                    (let offs = push_bit sh (sect - fatc_addr fatfs1 ! cidx) +
                                push_bit 1 clust mod ucast (ssize fatfs)
                     in case fatc_bytes fatfs1 cidx offs 2 of
                          None \<Rightarrow> None
                        | Some a_ptr \<Rightarrow>
                            (let v = ucast (ucast (tsk_getu16 (endian fs) a_ptr) AND FATFS_16_MASK)
                             in Some (None, fat_sanity fatfs FATFS_16_MASK v, fatfs1))))
         | TSK_FS_TYPE_FAT32 \<Rightarrow>
             if 64 \<le> sh \<or> ssize fatfs = 0 then None
             else
               (let sect = firstfatsect fatfs + drop_bit sh (push_bit 2 clust) in
                case getFATCacheIdx K rd fatfs sect of
                  (Inl e, fatfs1) \<Rightarrow> Some (Some e, val, fatfs1)
                | (Inr cidx, fatfs1) \<Rightarrow>
                    (let offs = push_bit sh (sect - fatc_addr fatfs1 ! cidx) +
                                push_bit 2 clust mod ucast (ssize fatfs)
                     in case fatc_bytes fatfs1 cidx offs 4 of
                          None \<Rightarrow> None
                        | Some a_ptr \<Rightarrow>
                            (let v = ucast (tsk_getu32 (endian fs) a_ptr AND FATFS_32_MASK)
                             in Some (None, fat_sanity fatfs FATFS_32_MASK v, fatfs1))))
         | _ \<Rightarrow> Some (Some TSK_ERR_FS_ARG, val, fatfs)))"

text \<open>
  \<^verbatim>\<open>fatfs_is_clustalloc\<close>: \<open>Inl e\<close> is -1, \<open>Inr True\<close> is 1 and \<open>Inr False\<close> is 0. The local
  \<^verbatim>\<open>content\<close> is not initialised in the source; \<open>content0\<close> is the value it happens to hold.
\<close>

definition FATFS_UNALLOC :: TSK_DADDR_T where "FATFS_UNALLOC = 0"

definition fatfs_is_clustalloc ::
  "fat_cache_consts \<Rightarrow> img_reader \<Rightarrow> FATFS_INFO \<Rightarrow> TSK_DADDR_T \<Rightarrow> TSK_DADDR_T \<Rightarrow>
     ((TSK_ERR + bool) \<times> FATFS_INFO) option" where
  "fatfs_is_clustalloc K rd fatfs clust content0 =
     (case fatfs_getFAT K rd fatfs clust content0 of
        None \<Rightarrow> None
      | Some (Some e, content, fatfs') \<Rightarrow> Some (Inl e, fatfs')
      | Some (None, content, fatfs') \<Rightarrow>
          if content = FATFS_UNALLOC then Some (Inr False, fatfs') else Some (Inr True, fatfs'))"

text \<open>
  Modelled from the spec: the macros \<^verbatim>\<open>FATFS_SECT_2_CLUST\<close> and \<^verbatim>\<open>FATFS_CLUST_2_SECT\<close> of the
  header, which is not part of the sources at hand. Cluster indices start at 2 at the first
  cluster sector; a cluster is \<open>csize\<close> consecutive sectors.
\<close>

definition FATFS_SECT_2_CLUST :: "FATFS_INFO \<Rightarrow> TSK_DADDR_T \<Rightarrow> TSK_DADDR_T" where
  "FATFS_SECT_2_CLUST fatfs s = 2 + (s - firstclustsect fatfs) div ucast (csize fatfs)"

definition FATFS_CLUST_2_SECT :: "FATFS_INFO \<Rightarrow> TSK_DADDR_T \<Rightarrow> TSK_DADDR_T" where
  "FATFS_CLUST_2_SECT fatfs c = firstclustsect fatfs + (c - 2) * ucast (csize fatfs)"

definition fatfs_is_sectalloc ::
  "fat_cache_consts \<Rightarrow> img_reader \<Rightarrow> FATFS_INFO \<Rightarrow> TSK_DADDR_T \<Rightarrow> TSK_DADDR_T \<Rightarrow>
     ((TSK_ERR + bool) \<times> FATFS_INFO) option" where
  "fatfs_is_sectalloc K rd fatfs sect content0 =
     (if sect < firstclustsect fatfs then Some (Inr True, fatfs)
      else if sect \<le> last_block (fs_info fatfs) \<and>
              sect \<ge> firstclustsect fatfs + ucast (csize fatfs) * clustcnt fatfs
      then Some (Inr False, fatfs)
      else if csize fatfs = 0 then None
      else fatfs_is_clustalloc K rd fatfs (FATFS_SECT_2_CLUST fatfs sect) content0)"

datatype TSK_FS_BLOCK_FLAG_ENUM =
    TSK_FS_BLOCK_FLAG_ALLOC
  | TSK_FS_BLOCK_FLAG_UNALLOC
  | TSK_FS_BLOCK_FLAG_CONT
  | TSK_FS_BLOCK_FLAG_META
  | TSK_FS_BLOCK_FLAG_RAW

text \<open>
  The flag enumerations are bit sets in C; the model keeps the set of bits. \<open>\<in>\<close> is the
  test \<^verbatim>\<open>flags & bit\<close> and \<open>\<union>\<close> is \<^verbatim>\<open>|\<close>.
\<close>

definition fatfs_block_getflags ::
  "fat_cache_consts \<Rightarrow> img_reader \<Rightarrow> FATFS_INFO \<Rightarrow> TSK_DADDR_T \<Rightarrow> TSK_DADDR_T \<Rightarrow>
     (TSK_FS_BLOCK_FLAG_ENUM set \<times> FATFS_INFO) option" where
  "fatfs_block_getflags K rd fatfs a_addr content0 =
     (if a_addr < firstdatasect fatfs
      then Some ({TSK_FS_BLOCK_FLAG_META, TSK_FS_BLOCK_FLAG_ALLOC}, fatfs)
      else if a_addr < firstclustsect fatfs
      then Some ({TSK_FS_BLOCK_FLAG_CONT, TSK_FS_BLOCK_FLAG_ALLOC}, fatfs)
      else
        (case fatfs_is_sectalloc K rd fatfs a_addr content0 of
           None \<Rightarrow> None
         | Some (Inl e, fatfs') \<Rightarrow> Some ({TSK_FS_BLOCK_FLAG_CONT}, fatfs')
         | Some (Inr True, fatfs') \<Rightarrow>
             Some ({TSK_FS_BLOCK_FLAG_CONT, TSK_FS_BLOCK_FLAG_ALLOC}, fatfs')
         | Some (Inr False, fatfs') \<Rightarrow>
             Some ({TSK_FS_BLOCK_FLAG_CONT, TSK_FS_BLOCK_FLAG_UNALLOC}, fatfs')))"

section \<open>FAT: the block walker\<close>

datatype TSK_FS_BLOCK_WALK_FLAG_ENUM =
    TSK_FS_BLOCK_WALK_FLAG_ALLOC
  | TSK_FS_BLOCK_WALK_FLAG_UNALLOC
  | TSK_FS_BLOCK_WALK_FLAG_CONT
  | TSK_FS_BLOCK_WALK_FLAG_META

datatype TSK_WALK_RET_ENUM = TSK_WALK_CONT | TSK_WALK_STOP | TSK_WALK_ERROR

text \<open>What \<^verbatim>\<open>tsk_fs_block_set\<close> stores in the block handed to the callback.\<close>

record TSK_FS_BLOCK =
  blk_addr :: TSK_DADDR_T
  blk_flags :: "TSK_FS_BLOCK_FLAG_ENUM set"
  blk_buf :: "byte list"

text \<open>
  The callback receives the block and the user pointer; the model threads what the pointer
  refers to (\<open>'u\<close>) through the calls.
\<close>

type_synonym 'u TSK_FS_BLOCK_WALK_CB = "TSK_FS_BLOCK \<Rightarrow> 'u \<Rightarrow> TSK_WALK_RET_ENUM \<times> 'u"

definition tsk_fs_block_set ::
  "TSK_FS_INFO \<Rightarrow> TSK_DADDR_T \<Rightarrow> TSK_FS_BLOCK_FLAG_ENUM set \<Rightarrow> byte list \<Rightarrow> TSK_FS_BLOCK" where
  "tsk_fs_block_set fs a fl data =
     \<lparr>blk_addr = a, blk_flags = fl, blk_buf = take (unat (block_size fs)) data\<rparr>"

text \<open>
  The inner loop of the pre-data phase, over the sectors of one burst of 8. The first
  component tells how the loop was left: \<open>TSK_WALK_CONT\<close> at its end, otherwise with the
  callback's STOP or ERROR.
\<close>

function fat_predata_burst ::
  "FATFS_INFO \<Rightarrow> TSK_FS_BLOCK_WALK_FLAG_ENUM set \<Rightarrow> 'u TSK_FS_BLOCK_WALK_CB \<Rightarrow> TSK_DADDR_T \<Rightarrow>
     byte list \<Rightarrow> nat \<Rightarrow> TSK_DADDR_T \<Rightarrow> 'u \<Rightarrow> TSK_WALK_RET_ENUM \<times> TSK_DADDR_T \<times> 'u" where
  "fat_predata_burst fatfs a_flags a_action a_end_blk data_buf i a u =
     (if i < 8 \<and> a \<le> a_end_blk \<and> a < firstclustsect fatfs then
        (let myflags = {TSK_FS_BLOCK_FLAG_ALLOC} \<union>
                       (if a < firstdatasect fatfs then {TSK_FS_BLOCK_FLAG_META}
                        else {TSK_FS_BLOCK_FLAG_CONT})
         in if TSK_FS_BLOCK_FLAG_META \<in> myflags \<and> TSK_FS_BLOCK_WALK_FLAG_META \<notin> a_flags
            then fat_predata_burst fatfs a_flags a_action a_end_blk data_buf (i + 1) (a + 1) u
            else if TSK_FS_BLOCK_FLAG_CONT \<in> myflags \<and> TSK_FS_BLOCK_WALK_FLAG_CONT \<notin> a_flags
            then fat_predata_burst fatfs a_flags a_action a_end_blk data_buf (i + 1) (a + 1) u
            else
              (let fs_block = tsk_fs_block_set (fs_info fatfs) a
                                (myflags \<union> {TSK_FS_BLOCK_FLAG_RAW})
                                (drop (unat (of_nat i * block_size (fs_info fatfs))) data_buf);
                   (retval, u') = a_action fs_block u
               in if retval = TSK_WALK_STOP then (TSK_WALK_STOP, a, u')
                  else if retval = TSK_WALK_ERROR then (TSK_WALK_ERROR, a, u')
                  else fat_predata_burst fatfs a_flags a_action a_end_blk data_buf (i + 1) (a + 1) u'))
      else (TSK_WALK_CONT, a, u))"
  by pat_completeness auto
termination
  by (relation "measure (\<lambda>(fatfs, a_flags, a_action, a_end_blk, data_buf, i, a, u). 8 - i)") auto

declare fat_predata_burst.simps [simp del]

lemma word_less_suc_unat: "(a :: 'a::len word) < b \<Longrightarrow> unat (a + 1) = unat a + 1"
proof -
  assume "a < b"
  then have "unat a < unat b" by (simp add: word_less_nat_alt)
  moreover have "unat b < 2 ^ LENGTH('a)" by (rule unsigned_less)
  ultimately have "unat a + 1 < 2 ^ LENGTH('a)" by linarith
  then have "unat a + unat (1 :: 'a word) < 2 ^ LENGTH('a)" by simp
  then have "unat (a + 1) = unat a + unat (1 :: 'a word)" by (simp only: unat_add_lem)
  then show ?thesis by simp
qed

lemma fat_predata_burst_addr:
  "fat_predata_burst fatfs a_flags a_action e data_buf i a u = (r, a', u') \<Longrightarrow>
     unat a \<le> unat a' \<and>
     (r = TSK_WALK_CONT \<longrightarrow> i < 8 \<longrightarrow> a \<le> e \<longrightarrow> a < firstclustsect fatfs \<longrightarrow> unat a < unat a')"
proof (induction "8 - i" arbitrary: i a u r a' u')
  case 0
  then show ?case by (subst (asm) fat_predata_burst.simps) auto
next
  case (Suc k)
  from Suc.hyps(2) have i8: "i < 8" and k: "k = 8 - (i + 1)" by auto
  note IH = Suc.hyps(1) [OF k]
  note simps = fat_predata_burst.simps [of fatfs a_flags a_action e data_buf i a u]
  show ?case
  proof (cases "a \<le> e \<and> a < firstclustsect fatfs")
    case False
    with Suc.prems show ?thesis by (subst (asm) simps) auto
  next
    case True
    then have "a < firstclustsect fatfs" by simp
    then have suc: "unat (a + 1) = unat a + 1" by (rule word_less_suc_unat)
    have rec: "unat a < unat a'"
      if "fat_predata_burst fatfs a_flags a_action e data_buf (Suc i) (a + 1) u1 = (r, a', u')" for r u1
      using IH [where a = "a + 1" and u = u1 and r = r and a' = a' and u' = u'] that suc by simp
    show ?thesis
      using Suc.prems True i8
      apply (subst (asm) simps)
      apply (auto split: if_splits prod.splits simp: Let_def dest!: rec)
      done
  qed
qed

text \<open>
  The outer loop of the pre-data phase. \<open>Inl r\<close>: the walk returns \<open>r\<close> from inside the
  loop; \<open>Inr a\<close>: the loop ends with \<^verbatim>\<open>addr = a\<close>. The buffer of 8 sectors is overwritten
  as a whole by every read that succeeds; what it held before is never used.
\<close>

function fat_predata_walk ::
  "img_reader \<Rightarrow> FATFS_INFO \<Rightarrow> TSK_FS_BLOCK_WALK_FLAG_ENUM set \<Rightarrow> 'u TSK_FS_BLOCK_WALK_CB \<Rightarrow>
     TSK_DADDR_T \<Rightarrow> TSK_DADDR_T \<Rightarrow> 'u \<Rightarrow> (TSK_ERR option + TSK_DADDR_T) \<times> 'u" where
  "fat_predata_walk rd fatfs a_flags a_action a_end_blk a u =
     (if a < firstclustsect fatfs \<and> a \<le> a_end_blk then
        (let len = unat (block_size (fs_info fatfs) * 8);
             (cnt, data_buf) = tsk_fs_read_block rd (fs_info fatfs) a (replicate len 0) len
         in if cnt \<noteq> Some len then (Inl (Some (read_errno cnt)), u)
            else
              (case fat_predata_burst fatfs a_flags a_action a_end_blk data_buf 0 a u of
                 (TSK_WALK_STOP, a', u') \<Rightarrow> (Inl None, u')
               | (TSK_WALK_ERROR, a', u') \<Rightarrow> (Inl (Some TSK_ERR_CALLEE), u')
               | (TSK_WALK_CONT, a', u') \<Rightarrow>
                   fat_predata_walk rd fatfs a_flags a_action a_end_blk a' u'))
      else (Inr a, u))"
  by pat_completeness auto
termination
  apply (relation "measure (\<lambda>(rd, fatfs, a_flags, a_action, a_end_blk, a, u).
                   unat (firstclustsect fatfs) - unat a)")
   apply simp
  subgoal for rd fatfs a_flags a_action a_end_blk a u x xa xb y xc ya xd yb
    using fat_predata_burst_addr [of fatfs a_flags a_action a_end_blk y 0 a u xc xd yb]
    by (auto simp: word_less_nat_alt)
  done

declare fat_predata_walk.simps [simp del]

text \<open>The inner loop of the cluster phase: the sectors of the cluster read at \<open>a\<close>.\<close>

function fat_cluster_sectors ::
  "FATFS_INFO \<Rightarrow> 'u TSK_FS_BLOCK_WALK_CB \<Rightarrow> TSK_DADDR_T \<Rightarrow> TSK_DADDR_T \<Rightarrow>
     TSK_FS_BLOCK_FLAG_ENUM set \<Rightarrow> byte list \<Rightarrow> nat \<Rightarrow> TSK_DADDR_T \<Rightarrow> nat \<Rightarrow> 'u \<Rightarrow>
     TSK_WALK_RET_ENUM \<times> 'u" where
  "fat_cluster_sectors fatfs a_action a_start_blk a_end_blk myflags data_buf read_size a i u =
     (if i < read_size then
        (if a + of_nat i < a_start_blk
         then fat_cluster_sectors fatfs a_action a_start_blk a_end_blk myflags data_buf
                read_size a (i + 1) u
         else if a + of_nat i > a_end_blk then (TSK_WALK_CONT, u)
         else
           (let fs_block = tsk_fs_block_set (fs_info fatfs) (a + of_nat i)
                             (myflags \<union> {TSK_FS_BLOCK_FLAG_RAW})
                             (drop (unat (of_nat i * block_size (fs_info fatfs))) data_buf);
                (retval, u') = a_action fs_block u
            in if retval = TSK_WALK_STOP then (TSK_WALK_STOP, u')
               else if retval = TSK_WALK_ERROR then (TSK_WALK_ERROR, u')
               else fat_cluster_sectors fatfs a_action a_start_blk a_end_blk myflags data_buf
                      read_size a (i + 1) u'))
      else (TSK_WALK_CONT, u))"
  by pat_completeness auto
termination
  by (relation "measure (\<lambda>(fatfs, a_action, a_start_blk, a_end_blk, myflags, data_buf,
                            read_size, a, i, u). read_size - i)") auto

declare fat_cluster_sectors.simps [simp del]


text \<open>The arguments of a walk that stay the same from cluster to cluster.\<close>

record 'u fat_walk_args =
  w_consts :: fat_cache_consts
  w_reader :: img_reader
  w_flags :: "TSK_FS_BLOCK_WALK_FLAG_ENUM set"
  w_action :: "'u TSK_FS_BLOCK_WALK_CB"
  w_start_blk :: TSK_DADDR_T
  w_end_blk :: TSK_DADDR_T
  w_content0 :: TSK_DADDR_T

text \<open>
  One round of the loop of the cluster phase, for the cluster at \<open>a\<close>. \<open>Inl r\<close>: the walk
  returns \<open>r\<close>; \<open>Inr\<close>: the loop goes on (after \<^verbatim>\<open>continue\<close> or at the end of its body).
\<close>

definition fat_cluster_step ::
  "'u fat_walk_args \<Rightarrow> FATFS_INFO \<Rightarrow> TSK_DADDR_T \<Rightarrow> 'u \<Rightarrow>
     ((TSK_ERR option \<times> 'u \<times> FATFS_INFO) + ('u \<times> FATFS_INFO)) option" where
  "fat_cluster_step W fatfs a u =
     (case fatfs_is_sectalloc (w_consts W) (w_reader W) fatfs a (w_content0 W) of
        None \<Rightarrow> None
      | Some (Inl e, fatfs1) \<Rightarrow> Some (Inl (Some e, u, fatfs1))
      | Some (Inr alloc, fatfs1) \<Rightarrow>
          (let myflags = (if alloc then {TSK_FS_BLOCK_FLAG_ALLOC} else {TSK_FS_BLOCK_FLAG_UNALLOC})
                         \<union> {TSK_FS_BLOCK_FLAG_CONT}
           in if TSK_FS_BLOCK_FLAG_CONT \<in> myflags \<and> TSK_FS_BLOCK_WALK_FLAG_CONT \<notin> w_flags W
              then Some (Inr (u, fatfs1))
              else if TSK_FS_BLOCK_FLAG_ALLOC \<in> myflags \<and> TSK_FS_BLOCK_WALK_FLAG_ALLOC \<notin> w_flags W
              then Some (Inr (u, fatfs1))
              else if TSK_FS_BLOCK_FLAG_UNALLOC \<in> myflags \<and>
                      TSK_FS_BLOCK_WALK_FLAG_UNALLOC \<notin> w_flags W
              then Some (Inr (u, fatfs1))
              else
                (let read_size = (if w_end_blk W - a + 1 < ucast (csize fatfs1)
                                  then unat (w_end_blk W - a + 1) else unat (csize fatfs1));
                     len = unat (block_size (fs_info fatfs1)) * read_size;
                     (cnt, data_buf) = tsk_fs_read_block (w_reader W) (fs_info fatfs1) a
                                         (replicate (unat (block_size (fs_info fatfs1)) *
                                            unat (csize fatfs1)) 0) len
                 in if cnt \<noteq> Some len then Some (Inl (Some (read_errno cnt), u, fatfs1))
                    else
                      (case fat_cluster_sectors fatfs1 (w_action W) (w_start_blk W) (w_end_blk W)
                              myflags data_buf read_size a 0 u of
                         (TSK_WALK_STOP, u') \<Rightarrow> Some (Inl (None, u', fatfs1))
                       | (TSK_WALK_ERROR, u') \<Rightarrow> Some (Inl (Some TSK_ERR_CALLEE, u', fatfs1))
                       | (TSK_WALK_CONT, u') \<Rightarrow> Some (Inr (u', fatfs1))))))"

text \<open>
  The loop of the cluster phase. \<^verbatim>\<open>addr += csize\<close> wraps around at \<open>2 ^ 64\<close> and \<open>csize\<close>
  may be 0, so the loop need not end: the result \<open>None\<close> covers a walk that does not return
  as well as one whose behaviour C leaves undefined.
\<close>

partial_function (option) fat_cluster_walk ::
  "'u fat_walk_args \<Rightarrow> FATFS_INFO \<Rightarrow> TSK_DADDR_T \<Rightarrow> 'u \<Rightarrow>
     (TSK_ERR option \<times> 'u \<times> FATFS_INFO) option" where
  "fat_cluster_walk W fatfs a u =
     (if a \<le> w_end_blk W then
        (case fat_cluster_step W fatfs a u of
           None \<Rightarrow> None
         | Some (Inl r) \<Rightarrow> Some r
         | Some (Inr (u', fatfs1)) \<Rightarrow> fat_cluster_walk W fatfs1 (a + ucast (csize fatfs1)) u')
      else Some (None, u, fatfs))"


text \<open>
  The cluster phase from \<^verbatim>\<open>addr = a\<close>: the address is aligned down to its cluster, then
  the loop runs. The alignment divides by \<open>csize\<close>.
\<close>

definition fat_data_area ::
  "'u fat_walk_args \<Rightarrow> FATFS_INFO \<Rightarrow> TSK_DADDR_T \<Rightarrow> 'u \<Rightarrow>
     (TSK_ERR option \<times> 'u \<times> FATFS_INFO) option" where
  "fat_data_area W fatfs a u =
     (if csize fatfs = 0 then None
      else fat_cluster_walk W fatfs
             (FATFS_CLUST_2_SECT fatfs (FATFS_SECT_2_CLUST fatfs a)) u)"

text \<open>
  \<^verbatim>\<open>fatfs_block_walk\<close>. The result is the return value (\<open>None\<close> for 0, \<open>Some e\<close> for 1), what
  the user pointer refers to after the callbacks, and the handle. Allocation failures are
  not modelled.
\<close>

definition fatfs_block_walk ::
  "fat_cache_consts \<Rightarrow> img_reader \<Rightarrow> FATFS_INFO \<Rightarrow> TSK_DADDR_T \<Rightarrow> TSK_DADDR_T \<Rightarrow>
     TSK_FS_BLOCK_WALK_FLAG_ENUM set \<Rightarrow> 'u TSK_FS_BLOCK_WALK_CB \<Rightarrow> TSK_DADDR_T \<Rightarrow> 'u \<Rightarrow>
     (TSK_ERR option \<times> 'u \<times> FATFS_INFO) option" where
  "fatfs_block_walk K rd fatfs a_start_blk a_end_blk a_flags a_action content0 u =
     (let fs = fs_info fatfs in
      if a_start_blk < first_block fs \<or> a_start_blk > last_block fs
      then Some (Some TSK_ERR_FS_WALK_RNG, u, fatfs)
      else if a_end_blk < first_block fs \<or> a_end_blk > last_block fs
      then Some (Some TSK_ERR_FS_WALK_RNG, u, fatfs)
      else
        (let flags1 = (if TSK_FS_BLOCK_WALK_FLAG_ALLOC \<notin> a_flags \<and>
                          TSK_FS_BLOCK_WALK_FLAG_UNALLOC \<notin> a_flags
                       then a_flags \<union> {TSK_FS_BLOCK_WALK_FLAG_ALLOC, TSK_FS_BLOCK_WALK_FLAG_UNALLOC}
                       else a_flags);
             flags2 = (if TSK_FS_BLOCK_WALK_FLAG_META \<notin> flags1 \<and>
                          TSK_FS_BLOCK_WALK_FLAG_CONT \<notin> flags1
                       then flags1 \<union> {TSK_FS_BLOCK_WALK_FLAG_CONT, TSK_FS_BLOCK_WALK_FLAG_META}
                       else flags1);
             W = \<lparr>w_consts = K, w_reader = rd, w_flags = flags2, w_action = a_action,
                  w_start_blk = a_start_blk, w_end_blk = a_end_blk, w_content0 = content0\<rparr>
         in if a_start_blk < firstclustsect fatfs \<and> TSK_FS_BLOCK_WALK_FLAG_ALLOC \<in> flags2
            then
              (case fat_predata_walk rd fatfs flags2 a_action a_end_blk a_start_blk u of
                 (Inl r, u') \<Rightarrow> Some (r, u', fatfs)
               | (Inr a, u') \<Rightarrow>
                   if a \<ge> a_end_blk then Some (None, u', fatfs)
                   else fat_data_area W fatfs a u')
            else fat_data_area W fatfs
                   (if a_start_blk < firstclustsect fatfs then firstclustsect fatfs
                    else a_start_blk) u))"

section \<open>FAT: opening a file system\<close>

text \<open>
  \<^verbatim>\<open>TSK_OFF_T\<close> is a signed 64-bit integer. Image sizes and offsets are modelled as \<open>int\<close>;
  \<open>sdiv\<close> and \<open>smod\<close> are C's truncating division, and \<open>of_int\<close> is the conversion to an
  unsigned 64-bit integer.
\<close>

record TSK_IMG_INFO =
  img_size :: int
  sector_size :: "32 word"

text \<open>
  The layout of the boot sector structure \<^verbatim>\<open>fatfs_sb\<close> belongs to the header: its size and
  the byte ranges of the fields that \<^verbatim>\<open>fatfs_open\<close> reads are parameters.
\<close>

record fatfs_sb_layout =
  sizeof_fatfs_sb :: nat
  sb_magic :: "byte list \<Rightarrow> byte list"
  sb_csize :: "byte list \<Rightarrow> byte list"
  sb_numfat :: "byte list \<Rightarrow> byte list"

definition XTAF_SECTOR_SIZE :: "16 word" where "XTAF_SECTOR_SIZE = 512"
definition XTAF_SECT_PER_FAT :: "32 word" where "XTAF_SECT_PER_FAT = 64"
definition XTAF_FIRST_FAT_SECT :: TSK_DADDR_T where "XTAF_FIRST_FAT_SECT = 8"

text \<open>The standard FAT boot signature, \<^verbatim>\<open>FATFS_FS_MAGIC\<close> of the header.\<close>

definition FATFS_FS_MAGIC :: "16 word" where "FATFS_FS_MAGIC = 0xAA55"

text \<open>
  Modelled from the spec: \<^verbatim>\<open>tsk_fs_guessu16\<close> of the framework, which is not part of the
  sources at hand. It matches two bytes against a signature in either byte order and so
  guesses the byte order of the file system; \<open>None\<close> is its return value 1 (no match).
\<close>

definition tsk_fs_guessu16 :: "byte list \<Rightarrow> 16 word \<Rightarrow> TSK_ENDIAN_ENUM option" where
  "tsk_fs_guessu16 x val =
     (if tsk_getu16 TSK_LIT_ENDIAN x = val then Some TSK_LIT_ENDIAN
      else if tsk_getu16 TSK_BIG_ENDIAN x = val then Some TSK_BIG_ENDIAN
      else None)"

text \<open>
  One round of the loop that looks for the boot sector (\<open>i = 0\<close>: the sector at 0,
  otherwise the backup in sector 6). On the XTAF path \<^verbatim>\<open>fs->endian\<close> is not assigned and
  keeps the value \<open>e0\<close> it had when the handle was allocated.
\<close>

datatype sb_round = SB_RETURN TSK_ERR | SB_BREAK "byte list" TSK_ENDIAN_ENUM | SB_CONTINUE "byte list"

definition fatfs_boot_round ::
  "fatfs_sb_layout \<Rightarrow> img_reader \<Rightarrow> TSK_IMG_INFO \<Rightarrow> TSK_ENDIAN_ENUM \<Rightarrow> nat \<Rightarrow> sb_round" where
  "fatfs_boot_round L rd img e0 i =
     (let len = sizeof_fatfs_sb L;
          sb_off = (if i = 0 then 0 else ucast (6 * sector_size img));
          (cnt, fatsb) = tsk_fs_read rd sb_off (replicate len 0) len
      in if cnt \<noteq> Some len then SB_RETURN (read_errno cnt)
         else if take 4 (sb_magic L fatsb) = [0x58, 0x54, 0x41, 0x46] then SB_BREAK fatsb e0
         else
           (case tsk_fs_guessu16 (sb_magic L fatsb) FATFS_FS_MAGIC of
              None \<Rightarrow>
                if i = 0 \<and> tsk_getu16 TSK_LIT_ENDIAN (sb_magic L fatsb) = 0
                then SB_CONTINUE fatsb
                else SB_RETURN TSK_ERR_FS_MAGIC
            | Some e \<Rightarrow> SB_BREAK fatsb e))"

text \<open>
  The geometry table: root sector, sectors per FAT, cluster count and last cluster, chosen
  by the size of the image and the offset of the file system.
\<close>

definition xtaf_geometry ::
  "int \<Rightarrow> int \<Rightarrow> (TSK_DADDR_T \<times> 32 word \<times> TSK_DADDR_T \<times> TSK_DADDR_T) option" where
  "xtaf_geometry sz off =
     (if sz = 146413464 \<or> sz = 4712496640 \<or> sz = 4846714880
      then Some (1176, 1160, 147910, 147891)
      else if sz = 2147483648 \<or> off = 0x80000 then Some (528, 512, 65536, 65527)
      else if sz = 2348810240 \<or> off = 0x80080000 then Some (2248, 2240, 65536, 65527)
      else if sz = 216203264 \<or> off = 0x10C080000 then Some (64, 56, 13196, 13194)
      else if sz = 134217728 \<or> off = 0x118eb0000 then Some (48, 40, 8192, 8190)
      else if sz = 268435456 \<or> off = 0x120eb0000
      then Some (80, XTAF_SECT_PER_FAT, 16384, 16381)
      else if sz = 244943674880 \<or> off = 0x130eb0000
      then Some (116808, 116800, 14950175, 14946525)
      else None)"

text \<open>
  The part of \<^verbatim>\<open>fatfs_open\<close> after the boot sector has been found. The inode numbers of
  the handle are computed with macros of the header and are left at 0 here; the volume id
  and the function pointers are not modelled.
\<close>

definition fatfs_open_sb ::
  "fat_cache_consts \<Rightarrow> fatfs_sb_layout \<Rightarrow> TSK_IMG_INFO \<Rightarrow> int \<Rightarrow> TSK_FS_TYPE_ENUM \<Rightarrow>
     byte list \<Rightarrow> TSK_ENDIAN_ENUM \<Rightarrow> TSK_ERR + FATFS_INFO" where
  "fatfs_open_sb K L img off a_ftype fatsb e =
     (let ssz = XTAF_SECTOR_SIZE;
          sh = (if ssz = 512 then Some 9 else if ssz = 1024 then Some 10
                else if ssz = 2048 then Some 11 else if ssz = 4096 then Some 12 else None)
      in case sh of
           None \<Rightarrow> Inl TSK_ERR_FS_MAGIC
         | Some ssz_sh \<Rightarrow>
      (let fsopen_csize = tsk_getu32 e (sb_csize L fatsb);
           cs = (ucast fsopen_csize :: 8 word)
       in if cs \<noteq> 0x01 \<and> cs \<noteq> 0x02 \<and> cs \<noteq> 0x04 \<and> cs \<noteq> 0x08 \<and>
             cs \<noteq> 0x10 \<and> cs \<noteq> 0x20 \<and> cs \<noteq> 0x40 \<and> cs \<noteq> 0x80
          then Inl TSK_ERR_FS_MAGIC
          else
      (let fsopen_numfat = tsk_getu32 e (sb_numfat L fatsb);
           nf = (ucast fsopen_numfat :: 8 word)
       in if nf = 0 \<or> nf > 8 then Inl TSK_ERR_FS_MAGIC
          else
      (let sectors = (of_int (img_size img) :: TSK_DADDR_T) div ucast XTAF_SECTOR_SIZE
       in case xtaf_geometry (img_size img) off of
            None \<Rightarrow> Inl TSK_ERR_NONE
          | Some (rs, spf, cc, lc) \<Rightarrow>
              if spf = 0 then Inl TSK_ERR_FS_MAGIC
              else if XTAF_FIRST_FAT_SECT = 0 \<or> XTAF_FIRST_FAT_SECT > sectors
              then Inl TSK_ERR_FS_WALK_RNG
              else
                (let fds = rs;
                     fcs = fds + 32 + 0;
                     ft = (if a_ftype = TSK_FS_TYPE_FAT_DETECT
                           then (if cc < 0xfff4 then TSK_FS_TYPE_FAT16 else TSK_FS_TYPE_FAT32)
                           else a_ftype)
                 in if a_ftype \<noteq> TSK_FS_TYPE_FAT_DETECT \<and> a_ftype = TSK_FS_TYPE_FAT12 \<and> cc \<ge> 4085
                    then Inl TSK_ERR_FS_MAGIC
                    else
                      (case (if ft = TSK_FS_TYPE_FAT12 then Some FATFS_12_MASK
                             else if ft = TSK_FS_TYPE_FAT16 then Some FATFS_16_MASK
                             else if ft = TSK_FS_TYPE_FAT32 then Some FATFS_32_MASK
                             else None) of
                         None \<Rightarrow> Inl TSK_ERR_FS_ARG
                       | Some m \<Rightarrow>
                           (let bsz = (ucast ssz :: 32 word);
                                act = (img_size img - off) sdiv uint bsz;
                                fs = \<lparr>ftype = ft, endian = e, block_size = bsz,
                                      first_block = 0, last_block = sectors - 1,
                                      last_block_act =
                                        (if (of_int act :: TSK_DADDR_T) < sectors
                                         then of_int (act - 1) else sectors - 1),
                                      first_inum = 0, last_inum = 0\<rparr>
                            in Inr \<lparr>fs_info = fs, firstfatsect = XTAF_FIRST_FAT_SECT,
                                    firstdatasect = fds, firstclustsect = fcs,
                                    clustcnt = cc, lastclust = lc, rootsect = rs,
                                    sectperfat = spf, numroot = 1, ssize = ssz,
                                    ssize_sh = ssz_sh, csize = cs, numfat = nf, mask_fat = m,
                                    fatc_buf = replicate (FAT_CACHE_N K)
                                                 (replicate (FAT_CACHE_B K) 0),
                                    fatc_addr = replicate (FAT_CACHE_N K) 0,
                                    fatc_ttl = replicate (FAT_CACHE_N K) 0\<rparr>)))))))"

text \<open>
  \<^verbatim>\<open>fatfs_open\<close>: \<open>Inl e\<close> is the return value NULL with \<^verbatim>\<open>tsk_errno = e\<close>. \<open>rd\<close> reads
  relative to the start of the file system, as \<^verbatim>\<open>tsk_fs_read\<close> does.
\<close>

definition TSK_FS_TYPE_ISFAT :: "TSK_FS_TYPE_ENUM \<Rightarrow> bool" where
  "TSK_FS_TYPE_ISFAT t \<longleftrightarrow>
     t = TSK_FS_TYPE_FAT12 \<or> t = TSK_FS_TYPE_FAT16 \<or> t = TSK_FS_TYPE_FAT32 \<or>
     t = TSK_FS_TYPE_FAT_DETECT \<or> t = TSK_FS_TYPE_FAT_UNKNOWN"

definition fatfs_open ::
  "fat_cache_consts \<Rightarrow> fatfs_sb_layout \<Rightarrow> img_reader \<Rightarrow> TSK_ENDIAN_ENUM \<Rightarrow> TSK_IMG_INFO \<Rightarrow>
     int \<Rightarrow> TSK_FS_TYPE_ENUM \<Rightarrow> TSK_ERR + FATFS_INFO" where
  "fatfs_open K L rd e0 img off a_ftype =
     (if \<not> TSK_FS_TYPE_ISFAT a_ftype then Inl TSK_ERR_FS_ARG
      else
        (case fatfs_boot_round L rd img e0 0 of
           SB_RETURN err \<Rightarrow> Inl err
         | SB_BREAK fatsb e \<Rightarrow> fatfs_open_sb K L img off a_ftype fatsb e
         | SB_CONTINUE fatsb0 \<Rightarrow>
             (case fatfs_boot_round L rd img e0 1 of
                SB_RETURN err \<Rightarrow> Inl err
              | SB_BREAK fatsb e \<Rightarrow> fatfs_open_sb K L img off a_ftype fatsb e
              | SB_CONTINUE fatsb \<Rightarrow> fatfs_open_sb K L img off a_ftype fatsb e0)))"

section \<open>Registry hives\<close>

text \<open>Constants of the header \<^verbatim>\<open>tsk_regfs.h\<close>: the page size, the offset of the first HBIN
  (the REGF header fills the first page) and the magic \<^verbatim>\<open>regf\<close> read as a little-endian
  32-bit integer.\<close>

definition HBIN_SIZE :: "32 word" where "HBIN_SIZE = 4096"
definition FIRST_HBIN_OFFSET :: TSK_INUM_T where "FIRST_HBIN_OFFSET = 0x1000"
definition REG_REGF_MAGIC :: "32 word" where "REG_REGF_MAGIC = 0x66676572"

datatype TSK_REGFS_RECORD_TYPE_ENUM =
    TSK_REGFS_RECORD_TYPE_NK
  | TSK_REGFS_RECORD_TYPE_VK
  | TSK_REGFS_RECORD_TYPE_LF
  | TSK_REGFS_RECORD_TYPE_LH
  | TSK_REGFS_RECORD_TYPE_LI
  | TSK_REGFS_RECORD_TYPE_RI
  | TSK_REGFS_RECORD_TYPE_SK
  | TSK_REGFS_RECORD_TYPE_DB
  | TSK_REGFS_RECORD_TYPE_UNKNOWN

record REGFS_CELL =
  cell_inum :: TSK_INUM_T
  cell_is_allocated :: "8 word"
  cell_type :: TSK_REGFS_RECORD_TYPE_ENUM
  cell_length :: "32 word"

text \<open>\<^verbatim>\<open>tsk_gets32\<close> is \<^verbatim>\<open>tsk_getu32\<close> read as a signed integer; the product with -1 is taken
  in 32-bit two's complement and stored in the unsigned length field.\<close>

definition reg_cell_type :: "16 word \<Rightarrow> TSK_REGFS_RECORD_TYPE_ENUM" where
  "reg_cell_type t =
     (if t = 0x6b76 then TSK_REGFS_RECORD_TYPE_VK
      else if t = 0x6b6e then TSK_REGFS_RECORD_TYPE_NK
      else if t = 0x666c then TSK_REGFS_RECORD_TYPE_LF
      else if t = 0x686c then TSK_REGFS_RECORD_TYPE_LH
      else if t = 0x696c then TSK_REGFS_RECORD_TYPE_LI
      else if t = 0x6972 then TSK_REGFS_RECORD_TYPE_RI
      else if t = 0x6b73 then TSK_REGFS_RECORD_TYPE_SK
      else if t = 0x6264 then TSK_REGFS_RECORD_TYPE_DB
      else TSK_REGFS_RECORD_TYPE_UNKNOWN)"

text \<open>
  \<^verbatim>\<open>reg_load_cell(fs, cell, inum)\<close>: the return value (\<open>None\<close> for \<^verbatim>\<open>TSK_OK\<close>, \<open>Some e\<close> for
  \<^verbatim>\<open>TSK_ERR\<close> with \<^verbatim>\<open>tsk_errno = e\<close>) and the cell structure at the return.
\<close>

definition reg_load_cell ::
  "img_reader \<Rightarrow> TSK_FS_INFO \<Rightarrow> REGFS_CELL \<Rightarrow> TSK_INUM_T \<Rightarrow> TSK_ERR option \<times> REGFS_CELL" where
  "reg_load_cell rd fs cell a_inum =
     (if a_inum < first_block fs \<or> a_inum > last_block fs then (Some TSK_ERR_FS_BLK_NUM, cell)
      else
        (let cell1 = cell\<lparr>cell_inum := a_inum\<rparr>;
             (cnt, buf) = tsk_fs_read rd a_inum (replicate 6 0) 6
         in if cnt \<noteq> Some 6 then (Some TSK_ERR_FS_READ, cell1)
            else
              (let len = tsk_getu32 (endian fs) buf;
                   cell2 = (if len AND push_bit 31 1 \<noteq> 0
                            then cell1\<lparr>cell_is_allocated := 1,
                                       cell_length := - 1 * tsk_getu32 (endian fs) buf\<rparr>
                            else cell1\<lparr>cell_is_allocated := 0,
                                       cell_length := tsk_getu32 (endian fs) buf\<rparr>)
               in if cell_length cell2 \<ge> HBIN_SIZE then (Some TSK_ERR_FS_INODE_COR, cell2)
                  else (None, cell2\<lparr>cell_type :=
                                       reg_cell_type (tsk_getu16 (endian fs) (drop 4 buf))\<rparr>))))"

text \<open>The loop of \<^verbatim>\<open>reg_block_walk\<close>, from block \<open>blknum\<close>.\<close>

function reg_block_loop ::
  "img_reader \<Rightarrow> TSK_FS_INFO \<Rightarrow> 'u TSK_FS_BLOCK_WALK_CB \<Rightarrow> TSK_DADDR_T \<Rightarrow> TSK_DADDR_T \<Rightarrow> 'u \<Rightarrow>
     TSK_ERR option \<times> 'u" where
  "reg_block_loop rd fs a_action a_end_blk blknum u =
     (if blknum < a_end_blk then
        (let (cnt, data_buf) = tsk_fs_read_block rd fs blknum
                                 (replicate (unat HBIN_SIZE) 0) (unat HBIN_SIZE)
         in if cnt \<noteq> Some (unat HBIN_SIZE) then (Some TSK_ERR_CALLEE, u)
            else
              (let fs_block = tsk_fs_block_set fs blknum
                                {TSK_FS_BLOCK_FLAG_ALLOC, TSK_FS_BLOCK_FLAG_META,
                                 TSK_FS_BLOCK_FLAG_CONT, TSK_FS_BLOCK_FLAG_RAW} data_buf;
                   (retval, u') = a_action fs_block u
               in if retval = TSK_WALK_STOP then (None, u')
                  else if retval = TSK_WALK_ERROR then (Some TSK_ERR_CALLEE, u')
                  else reg_block_loop rd fs a_action a_end_blk (blknum + 1) u'))
      else (None, u))"
  by pat_completeness auto
termination
  apply (relation "measure (\<lambda>(rd, fs, a_action, a_end_blk, blknum, u).
                              unat a_end_blk - unat blknum)")
   apply simp
  subgoal for rd fs a_action a_end_blk blknum u
    using word_less_suc_unat [of blknum a_end_blk]
    by (auto simp: word_less_nat_alt)
  done

declare reg_block_loop.simps [simp del]

text \<open>
  \<^verbatim>\<open>reg_block_walk\<close>. The walk flags are completed as in the FAT walker and then not used;
  \<^verbatim>\<open>tsk_fs_block_set\<close> is taken to succeed.
\<close>

definition reg_block_walk ::
  "img_reader \<Rightarrow> TSK_FS_INFO \<Rightarrow> TSK_DADDR_T \<Rightarrow> TSK_DADDR_T \<Rightarrow>
     TSK_FS_BLOCK_WALK_FLAG_ENUM set \<Rightarrow> 'u TSK_FS_BLOCK_WALK_CB \<Rightarrow> 'u \<Rightarrow> TSK_ERR option \<times> 'u" where
  "reg_block_walk rd fs a_start_blk a_end_blk a_flags a_action u =
     (if a_start_blk < first_block fs \<or> a_start_blk > last_block fs
      then (Some TSK_ERR_FS_WALK_RNG, u)
      else if a_end_blk < first_block fs \<or> a_end_blk > last_block fs
      then (Some TSK_ERR_FS_WALK_RNG, u)
      else reg_block_loop rd fs a_action a_end_blk a_start_blk u)"

definition reg_block_getflags :: "TSK_FS_INFO \<Rightarrow> TSK_DADDR_T \<Rightarrow> TSK_FS_BLOCK_FLAG_ENUM set" where
  "reg_block_getflags fs a_addr =
     {TSK_FS_BLOCK_FLAG_ALLOC, TSK_FS_BLOCK_FLAG_META, TSK_FS_BLOCK_FLAG_CONT}"

text \<open>
  The layout of the header structure \<^verbatim>\<open>REGF\<close> belongs to the header file: its size and the
  byte ranges of the two fields read at open time are parameters.
\<close>

record regf_layout =
  sizeof_REGF :: nat
  regf_magic :: "byte list \<Rightarrow> byte list"
  regf_last_hbin_offset :: "byte list \<Rightarrow> byte list"

definition reg_load_regf ::
  "regf_layout \<Rightarrow> img_reader \<Rightarrow> TSK_ENDIAN_ENUM \<Rightarrow> TSK_ERR + byte list" where
  "reg_load_regf L rd e =
     (let (cnt, regf) = tsk_fs_read rd 0 (replicate (sizeof_REGF L) 0) (sizeof_REGF L)
      in if cnt \<noteq> Some (sizeof_REGF L) then Inl TSK_ERR_FS_READ
         else if tsk_getu32 e (regf_magic L regf) \<noteq> REG_REGF_MAGIC then Inl TSK_ERR_FS_INODE_COR
         else Inr regf)"

definition TSK_FS_TYPE_ISREG :: "TSK_FS_TYPE_ENUM \<Rightarrow> bool" where
  "TSK_FS_TYPE_ISREG t \<longleftrightarrow> t = TSK_FS_TYPE_REG"

text \<open>\<^verbatim>\<open>regfs_open\<close>: the \<^verbatim>\<open>TSK_FS_INFO\<close> of the hive, or NULL with \<^verbatim>\<open>tsk_errno = e\<close>.\<close>

definition regfs_open ::
  "regf_layout \<Rightarrow> img_reader \<Rightarrow> TSK_IMG_INFO \<Rightarrow> TSK_FS_TYPE_ENUM \<Rightarrow> TSK_ERR + TSK_FS_INFO" where
  "regfs_open L rd img a_ftype =
     (if \<not> TSK_FS_TYPE_ISREG a_ftype then Inl TSK_ERR_FS_ARG
      else
        (case reg_load_regf L rd TSK_LIT_ENDIAN of
           Inl e \<Rightarrow> Inl e
         | Inr regf \<Rightarrow>
             (let lho = tsk_getu32 TSK_LIT_ENDIAN (regf_last_hbin_offset L regf)
              in Inr \<lparr>ftype = TSK_FS_TYPE_REG, endian = TSK_LIT_ENDIAN,
                      block_size = HBIN_SIZE, first_block = 0, last_block = ucast lho,
                      last_block_act =
                        of_int ((img_size img - img_size img smod uint HBIN_SIZE)
                                  sdiv uint HBIN_SIZE),
                      first_inum = FIRST_HBIN_OFFSET,
                      last_inum = ucast (lho + HBIN_SIZE)\<rparr>)))"

text \<open>
  \<^verbatim>\<open>reg_file_add_meta(fs, a_fs_file, inum)\<close>, the lookup of a cell by its inode number
  (\<^verbatim>\<open>fs->file_add_meta\<close>). The result is \<open>Inl e\<close> for the return value 1 with
  \<^verbatim>\<open>tsk_errno = e\<close>, or the metadata of the file at the return 0: address, type, size and
  the content buffer. \<open>file_given\<close> says that \<^verbatim>\<open>a_fs_file\<close> is not NULL and \<open>cell0\<close> is what
  the local \<^verbatim>\<open>cell\<close> holds before it is loaded. The test \<^verbatim>\<open>fs == NULL\<close> comes after \<^verbatim>\<open>fs\<close>
  has been dereferenced and is left out; \<^verbatim>\<open>tsk_fs_meta_alloc\<close> is taken to succeed; the mode,
  the link count, the owner and the time stamps, which the function sets without looking
  at \<open>inum\<close>, are not part of the record.
\<close>

datatype TSK_FS_META_TYPE_ENUM =
    TSK_FS_META_TYPE_REG
  | TSK_FS_META_TYPE_DIR
  | TSK_FS_META_TYPE_VIRT

record TSK_FS_META =
  meta_addr :: TSK_INUM_T
  meta_type :: TSK_FS_META_TYPE_ENUM
  meta_size :: "64 word"
  meta_content :: "byte list"

definition reg_file_add_meta ::
  "img_reader \<Rightarrow> TSK_FS_INFO \<Rightarrow> bool \<Rightarrow> REGFS_CELL \<Rightarrow> TSK_INUM_T \<Rightarrow> TSK_ERR + TSK_FS_META" where
  "reg_file_add_meta rd fs file_given cell0 a_inum =
     (if a_inum < first_inum fs \<or> a_inum > last_inum fs then Inl TSK_ERR_FS_INODE_NUM
      else if \<not> file_given then Inl TSK_ERR_FS_ARG
      else
        (case reg_load_cell rd fs cell0 a_inum of
           (Some e, cell) \<Rightarrow> Inl e
         | (None, cell) \<Rightarrow>
             if cell_length cell > HBIN_SIZE then Inl TSK_ERR_FS_INODE_COR
             else
               (let n = unat (cell_length cell);
                    (cnt, content) = tsk_fs_read rd a_inum (replicate n 0) n
                in if cnt \<noteq> Some n then Inl TSK_ERR_FS_READ
                   else Inr \<lparr>meta_addr = a_inum,
                             meta_type =
                               (if cell_type cell = TSK_REGFS_RECORD_TYPE_VK
                                then TSK_FS_META_TYPE_REG
                                else if cell_type cell = TSK_REGFS_RECORD_TYPE_NK
                                then TSK_FS_META_TYPE_DIR
                                else TSK_FS_META_TYPE_VIRT),
                             meta_size = ucast (cell_length cell),
                             meta_content = content\<rparr>)))"

text \<open>
  What the specification says a Registry block walk hands to the callback for block
  \<open>blk\<close>: the address, the flags ALLOC, META, CONT and RAW, and the 4096 bytes read at
  offset \<open>blk \<times> 4096\<close>. \<open>reg_read_full\<close> says that this read is not short, and
  \<open>reg_deliver\<close> runs the callback over a list of blocks in order, passing on what the user
  pointer refers to.
\<close>

definition reg_block_view :: "img_reader \<Rightarrow> TSK_DADDR_T \<Rightarrow> TSK_FS_BLOCK" where
  "reg_block_view rd blk =
     \<lparr>blk_addr = blk,
      blk_flags = {TSK_FS_BLOCK_FLAG_ALLOC, TSK_FS_BLOCK_FLAG_META, TSK_FS_BLOCK_FLAG_CONT,
                   TSK_FS_BLOCK_FLAG_RAW},
      blk_buf = (case rd (blk * 4096) 4096 of None \<Rightarrow> [] | Some bs \<Rightarrow> take 4096 bs)\<rparr>"

definition reg_read_full :: "img_reader \<Rightarrow> TSK_DADDR_T \<Rightarrow> bool" where
  "reg_read_full rd blk \<longleftrightarrow>
     (case rd (blk * 4096) 4096 of None \<Rightarrow> False | Some bs \<Rightarrow> 4096 \<le> length bs)"

definition reg_deliver ::
  "img_reader \<Rightarrow> 'u TSK_FS_BLOCK_WALK_CB \<Rightarrow> TSK_DADDR_T list \<Rightarrow> 'u \<Rightarrow> 'u" where
  "reg_deliver rd cb blks u = fold (\<lambda>blk v. snd (cb (reg_block_view rd blk) v)) blks u"

text \<open>Callbacks for the examples: they append the address of the block to a list; the
  second stops, the third fails, at block 2.\<close>

definition log_cb :: "TSK_DADDR_T list TSK_FS_BLOCK_WALK_CB" where
  "log_cb b l = (TSK_WALK_CONT, l @ [blk_addr b])"

definition stop_cb :: "TSK_DADDR_T list TSK_FS_BLOCK_WALK_CB" where
  "stop_cb b l = (if blk_addr b = 2 then TSK_WALK_STOP else TSK_WALK_CONT, l @ [blk_addr b])"

definition error_cb :: "TSK_DADDR_T list TSK_FS_BLOCK_WALK_CB" where
  "error_cb b l = (if blk_addr b = 2 then TSK_WALK_ERROR else TSK_WALK_CONT, l @ [blk_addr b])"

section \<open>Images\<close>

text \<open>
  Modelled from the spec: the image reader, a bounded byte read at an absolute offset that
  returns the count actually read. An image is its length and its bytes; a read that
  starts beyond the end fails, one that crosses the end is short.
\<close>

record disk_image =
  disk_len :: nat
  disk_byte :: "nat \<Rightarrow> byte"

definition img_slice :: "disk_image \<Rightarrow> nat \<Rightarrow> nat \<Rightarrow> byte list" where
  "img_slice I off n = map (disk_byte I) [off..<off + n]"

definition image_reader :: "disk_image \<Rightarrow> img_reader" where
  "image_reader I off len =
     (if disk_len I < unat off then None
      else Some (img_slice I (unat off) (min len (disk_len I - unat off))))"

section \<open>Sequences of cache requests\<close>

text \<open>
  A run of \<^verbatim>\<open>getFATCacheIdx\<close> calls for the sectors of a list, each on the handle the call
  before has left; \<open>None\<close> as soon as one of them fails.
\<close>

fun acquire_all ::
  "fat_cache_consts \<Rightarrow> img_reader \<Rightarrow> FATFS_INFO \<Rightarrow> TSK_DADDR_T list \<Rightarrow> FATFS_INFO option" where
  "acquire_all K rd fatfs [] = Some fatfs"
| "acquire_all K rd fatfs (sect # sects) =
     (case getFATCacheIdx K rd fatfs sect of
        (Inl e, fatfs') \<Rightarrow> None
      | (Inr cidx, fatfs') \<Rightarrow> acquire_all K rd fatfs' sects)"

text \<open>
  The invariant of the TTLs: the slots in use have pairwise different TTLs, and below the
  TTL of a slot every value from 1 on is the TTL of some slot.
\<close>

definition ttl_inv :: "nat \<Rightarrow> nat list \<Rightarrow> bool" where
  "ttl_inv N ttl \<longleftrightarrow>
     length ttl = N \<and>
     (\<forall>i<N. \<forall>j<N. i \<noteq> j \<and> ttl ! i \<noteq> 0 \<longrightarrow> ttl ! i \<noteq> ttl ! j) \<and>
     (\<forall>i<N. \<forall>v. 1 \<le> v \<and> v < ttl ! i \<longrightarrow> (\<exists>j<N. ttl ! j = v))"

section \<open>The FAT as it lies on the image\<close>

text \<open>
  The geometry under which the cache arithmetic of \<^verbatim>\<open>fatfs_getFAT\<close> is exact: at least one
  slot of at least two sectors, a slot of \<open>FAT_CACHE_S\<close> sectors filling the \<open>FAT_CACHE_B\<close>
  bytes of its buffer, a sector size of \<open>2 ^ ssize_sh\<close> bytes (at least 4), and blocks that
  are sectors. \<^verbatim>\<open>fatfs_open\<close> sets the sector size to 512 and the shift to 9, and the
  header has 4 slots of 8 sectors and 4096 bytes.
\<close>

definition fat_geom_ok :: "fat_cache_consts \<Rightarrow> FATFS_INFO \<Rightarrow> bool" where
  "fat_geom_ok K fatfs \<longleftrightarrow>
     0 < FAT_CACHE_N K \<and> 2 \<le> FAT_CACHE_S K \<and>
     2 \<le> unat (ssize_sh fatfs) \<and> unat (ssize_sh fatfs) < 16 \<and>
     unat (ssize fatfs) = 2 ^ unat (ssize_sh fatfs) \<and>
     block_size (fs_info fatfs) = ucast (ssize fatfs) \<and>
     FAT_CACHE_B K = FAT_CACHE_S K * unat (ssize fatfs)"

text \<open>
  The cache agrees with the image: there are \<open>FAT_CACHE_N\<close> slots with buffers of
  \<open>FAT_CACHE_B\<close> bytes, and every slot in use holds the bytes of the image from its
  first sector on. The cache of a handle that \<^verbatim>\<open>fatfs_open\<close> has just returned has no slot
  in use.
\<close>

definition cache_coherent :: "fat_cache_consts \<Rightarrow> disk_image \<Rightarrow> FATFS_INFO \<Rightarrow> bool" where
  "cache_coherent K I fatfs \<longleftrightarrow>
     length (fatc_ttl fatfs) = FAT_CACHE_N K \<and>
     length (fatc_addr fatfs) = FAT_CACHE_N K \<and>
     length (fatc_buf fatfs) = FAT_CACHE_N K \<and>
     (\<forall>i<FAT_CACHE_N K. length (fatc_buf fatfs ! i) = FAT_CACHE_B K) \<and>
     (\<forall>i<FAT_CACHE_N K. 0 < fatc_ttl fatfs ! i \<longrightarrow>
        unat (fatc_addr fatfs ! i) * unat (ssize fatfs) + FAT_CACHE_B K \<le> disk_len I \<and>
        fatc_buf fatfs ! i =
          img_slice I (unat (fatc_addr fatfs ! i) * unat (ssize fatfs)) (FAT_CACHE_B K))"





section \<open>An example image\<close>

text \<open>
  A 128 MiB XTAF partition: the magic, 32 sectors per cluster and one FAT in the boot
  sector (big-endian), and a FAT at sector 8 whose entry for cluster 5 holds \<open>0x3000\<close>,
  a value beyond the last cluster. Every other byte is 0.
\<close>

definition ex_disk :: disk_image where
  "ex_disk = \<lparr>disk_len = 134217728,
              disk_byte = (\<lambda>p. if p = 0 then 0x58 else if p = 1 then 0x54
                                else if p = 2 then 0x41 else if p = 3 then 0x46
                                else if p = 11 then 0x20 else if p = 15 then 0x01
                                else if p = 4106 then 0x30 else 0)\<rparr>"

definition ex_consts :: fat_cache_consts where
  "ex_consts = \<lparr>FAT_CACHE_N = 4, FAT_CACHE_S = 8, FAT_CACHE_B = 4096\<rparr>"



definition ex_fatfs :: FATFS_INFO where
  "ex_fatfs =
     \<lparr>fs_info = \<lparr>ftype = TSK_FS_TYPE_FAT16, endian = TSK_BIG_ENDIAN, block_size = 512,
                  first_block = 0, last_block = 262143, last_block_act = 262143,
                  first_inum = 0, last_inum = 0\<rparr>,
      firstfatsect = 8, firstdatasect = 48, firstclustsect = 80,
      clustcnt = 8192, lastclust = 8190, rootsect = 48, sectperfat = 40, numroot = 1,
      ssize = 512, ssize_sh = 9, csize = 32, numfat = 1, mask_fat = 0xffff,
      fatc_buf = [replicate 4096 0, replicate 4096 0, replicate 4096 0, replicate 4096 0],
      fatc_addr = [0, 0, 0, 0],
      fatc_ttl = [0, 0, 0, 0]\<rparr>"

text \<open>
  A hive of four pages: the REGF header with the magic and a last HBIN offset of
  \<open>0x2000\<close>, and at \<open>0x1000\<close> a cell header \<^verbatim>\<open>F8 FF FF FF 6E 6B\<close> (length -8, tag nk).
\<close>

definition ex_hive_disk :: disk_image where
  "ex_hive_disk = \<lparr>disk_len = 16384,
                   disk_byte = (\<lambda>p. if p = 0 then 0x72 else if p = 1 then 0x65
                                     else if p = 2 then 0x67 else if p = 3 then 0x66
                                     else if p = 41 then 0x20
                                     else if p = 4096 then 0xF8 else if p = 4097 then 0xFF
                                     else if p = 4098 then 0xFF else if p = 4099 then 0xFF
                                     else if p = 4100 then 0x6E else if p = 4101 then 0x6B
                                     else 0)\<rparr>"

definition ex_regf_layout :: regf_layout where
  "ex_regf_layout = \<lparr>sizeof_REGF = 4096, regf_magic = take 4,
                     regf_last_hbin_offset = (\<lambda>regf. take 4 (drop 40 regf))\<rparr>"

definition ex_hive_img :: TSK_IMG_INFO where
  "ex_hive_img = \<lparr>img_size = 16384, sector_size = 512\<rparr>"

definition ex_hive :: TSK_FS_INFO where
  "ex_hive = \<lparr>ftype = TSK_FS_TYPE_REG, endian = TSK_LIT_ENDIAN, block_size = 4096,
              first_block = 0, last_block = 0x2000, last_block_act = 4,
              first_inum = 0x1000, last_inum = 0x3000\<rparr>"

definition ex_cell :: REGFS_CELL where
  "ex_cell = \<lparr>cell_inum = 0, cell_is_allocated = 0,
              cell_type = TSK_REGFS_RECORD_TYPE_UNKNOWN, cell_length = 0\<rparr>"

section \<open>Reading the example image\<close>

lemma img_slice_length [simp]: "length (img_slice I off n) = n"
  by (simp add: img_slice_def)

lemma img_slice_nth [simp]: "k < n \<Longrightarrow> img_slice I off n ! k = disk_byte I (off + k)"
  by (simp add: img_slice_def)

lemma img_slice_take [simp]: "take m (img_slice I off n) = img_slice I off (min m n)"
  by (simp add: img_slice_def take_map min_def)

lemma img_slice_drop [simp]: "drop m (img_slice I off n) = img_slice I (off + m) (n - m)"
  by (cases "m \<le> n") (simp_all add: img_slice_def drop_map)

lemma img_slice_2: "img_slice I off 2 = [disk_byte I off, disk_byte I (off + 1)]"
  by (rule nth_equalityI) (auto simp: less_Suc_eq numeral_2_eq_2)


lemma tsk_fs_read_image:
  "unat off + len \<le> disk_len I \<Longrightarrow>
     tsk_fs_read (image_reader I) off buf len =
       (Some len, img_slice I (unat off) len @ drop len buf)"
  by (simp add: tsk_fs_read_def image_reader_def)

lemma ex_disk_len [simp]: "disk_len ex_disk = 134217728"
  by (simp add: ex_disk_def)





lemma replicate_4: "replicate 4 x = [x, x, x, x]"
  by (simp add: numeral_eq_Suc)



lemma list_update_numeral: "(x # xs)[numeral k := v] = x # xs[pred_numeral k := v]"
  by (simp add: numeral_eq_Suc)

lemma upt_0_4: "[0..<4] = [0, 1, 2, 3]"
  by (simp add: upt_rec)

lemmas cache_eval = upt_0_4 getFATCacheIdx_def cache_hit_def ttl_push_def ttl_step_def cache_victim_def
  tsk_fs_read_image list_update_numeral Let_def

section \<open>The TTLs of the sector cache\<close>

lemma ttl_step_length [simp]: "length (ttl_step i a ttl) = length ttl"
  by (simp add: ttl_step_def)

lemma ttl_fold_nth:
  assumes "n \<le> length ttl" "i < length ttl"
  shows "length (fold (ttl_step i) [0..<n] ttl) = length ttl \<and>
         (\<forall>j<length ttl. fold (ttl_step i) [0..<n] ttl ! j =
            (if j < n \<and> ttl ! j \<noteq> 0 \<and> ttl ! j < ttl ! i then ttl ! j + 1 else ttl ! j))"
  using assms
proof (induction n)
  case 0
  then show ?case by simp
next
  case (Suc n)
  let ?r = "fold (ttl_step i) [0..<n] ttl"
  from Suc have len: "length ?r = length ttl"
    and nth: "\<And>j. j < length ttl \<Longrightarrow> ?r ! j =
            (if j < n \<and> ttl ! j \<noteq> 0 \<and> ttl ! j < ttl ! i then ttl ! j + 1 else ttl ! j)"
    by auto
  have ri: "?r ! i = ttl ! i" using nth [of i] Suc.prems by simp
  have rn: "?r ! n = ttl ! n" using nth [of n] Suc.prems by simp
  have step: "fold (ttl_step i) [0..<Suc n] ttl = ttl_step i n ?r" by simp
  show ?case
    unfolding step using len nth ri rn Suc.prems
    by (auto simp: ttl_step_def nth_list_update less_Suc_eq)
qed

lemma ttl_push_nth:
  assumes "length ttl = N" "i < N" "j < N"
  shows "ttl_push N i ttl ! j = (if ttl ! j \<noteq> 0 \<and> ttl ! j < ttl ! i then ttl ! j + 1 else ttl ! j)"
  using ttl_fold_nth [of N ttl i] assms by (simp add: ttl_push_def)

lemma ttl_push_length: "length ttl = N \<Longrightarrow> i < N \<Longrightarrow> length (ttl_push N i ttl) = N"
  using ttl_fold_nth [of N ttl i] by (simp add: ttl_push_def)

lemma victim_fold:
  "fold (\<lambda>i cidx. if P i then i else cidx) [0..<n] 0 = c \<Longrightarrow>
     (if \<exists>i<n. P i then c < n \<and> P c \<and> (\<forall>i<n. P i \<longrightarrow> i \<le> c) else c = 0)"
proof (induction n arbitrary: c)
  case 0
  then show ?case by simp
next
  case (Suc n)
  then show ?case
    by (auto simp: less_Suc_eq split: if_splits)
qed

lemma ttl_inv_bound:
  assumes inv: "ttl_inv N ttl" and i: "i < N"
  shows "ttl ! i \<le> card {j. j < N \<and> ttl ! j \<noteq> 0}"
proof -
  let ?U = "{j. j < N \<and> ttl ! j \<noteq> 0}"
  have fin: "finite ?U" by simp
  have sub: "{1..<ttl ! i} \<subseteq> (\<lambda>j. ttl ! j) ` ?U"
  proof
    fix v assume "v \<in> {1..<ttl ! i}"
    then have v: "1 \<le> v" "v < ttl ! i" by auto
    with inv i obtain j where "j < N" "ttl ! j = v" unfolding ttl_inv_def by blast
    with v show "v \<in> (\<lambda>j. ttl ! j) ` ?U" by force
  qed
  show ?thesis
  proof (cases "ttl ! i = 0")
    case True
    then show ?thesis by simp
  next
    case False
    with i have "i \<in> ?U" by simp
    have "insert (ttl ! i) {1..<ttl ! i} \<subseteq> (\<lambda>j. ttl ! j) ` ?U"
      using sub \<open>i \<in> ?U\<close> by blast
    then have "card (insert (ttl ! i) {1..<ttl ! i}) \<le> card ((\<lambda>j. ttl ! j) ` ?U)"
      using fin by (intro card_mono) auto
    moreover have "card (insert (ttl ! i) {1..<ttl ! i}) = ttl ! i"
      using False by simp
    moreover have "card ((\<lambda>j. ttl ! j) ` ?U) \<le> card ?U"
      using fin by (rule card_image_le)
    ultimately show ?thesis by linarith
  qed
qed

lemma ttl_inv_le_N:
  assumes "ttl_inv N ttl" "i < N"
  shows "ttl ! i \<le> N"
proof -
  have "card {j. j < N \<and> ttl ! j \<noteq> 0} \<le> card {..<N}"
    by (intro card_mono) auto
  with ttl_inv_bound [OF assms] show ?thesis by simp
qed

lemma ttl_inv_lt_N:
  assumes inv: "ttl_inv N ttl" and i: "i < N" and c: "c < N" "ttl ! c = 0"
  shows "ttl ! i < N"
proof -
  have "{j. j < N \<and> ttl ! j \<noteq> 0} \<subseteq> {..<N} - {c}" using c by auto
  then have "card {j. j < N \<and> ttl ! j \<noteq> 0} \<le> card ({..<N} - {c})"
    by (intro card_mono) auto
  also have "\<dots> = N - 1" using c by simp
  finally show ?thesis using ttl_inv_bound [OF inv i] c by linarith
qed

lemma ttl_inv_candidate:
  assumes inv: "ttl_inv N ttl" and N: "0 < N"
  shows "\<exists>i<N. ttl ! i = 0 \<or> ttl ! i \<ge> N"
proof (rule ccontr)
  assume "\<not> ?thesis"
  then have all: "\<And>i. i < N \<Longrightarrow> ttl ! i \<noteq> 0 \<and> ttl ! i < N" by force
  have inj: "inj_on (\<lambda>j. ttl ! j) {..<N}"
    using inv all unfolding ttl_inv_def inj_on_def by (metis lessThan_iff)
  have "(\<lambda>j. ttl ! j) ` {..<N} \<subseteq> {1..<N}" using all by force
  then have "card ((\<lambda>j. ttl ! j) ` {..<N}) \<le> card {1..<N}"
    by (intro card_mono) auto
  with inj N show False by (simp add: card_image)
qed

lemma ttl_age_inv:
  assumes inv: "ttl_inv N ttl" and c: "c < N"
    and len': "length ttl' = N"
    and nth': "\<And>j. j < N \<Longrightarrow> ttl' ! j =
        (if j = c then 1 else if ttl ! j \<noteq> 0 \<and> ttl ! j < t then ttl ! j + 1 else ttl ! j)"
    and t: "(ttl ! c \<noteq> 0 \<and> t = ttl ! c) \<or> (ttl ! c = 0 \<and> (\<forall>j<N. ttl ! j < t))"
  shows "ttl_inv N ttl'"
proof -
  have dist: "\<And>i j. i < N \<Longrightarrow> j < N \<Longrightarrow> i \<noteq> j \<Longrightarrow> ttl ! i \<noteq> 0 \<Longrightarrow> ttl ! i \<noteq> ttl ! j"
    using inv unfolding ttl_inv_def by blast
  have down: "\<And>i v. i < N \<Longrightarrow> 1 \<le> v \<Longrightarrow> v < ttl ! i \<Longrightarrow> \<exists>j<N. ttl ! j = v"
    using inv unfolding ttl_inv_def by blast
  have notc: "\<And>j. j < N \<Longrightarrow> ttl ! j \<noteq> 0 \<Longrightarrow> ttl ! j < t \<Longrightarrow> j \<noteq> c"
    using t by auto
  have nt: "\<And>j. j < N \<Longrightarrow> j \<noteq> c \<Longrightarrow> ttl ! j \<noteq> t"
    using t dist [OF c] by (metis less_irrefl)
  have D: "ttl' ! i \<noteq> ttl' ! j" if "i < N" "j < N" "i \<noteq> j" "ttl' ! i \<noteq> 0" for i j
  proof -
    consider "i = c" | "j = c" "i \<noteq> c" | "i \<noteq> c" "j \<noteq> c" by blast
    then show ?thesis
    proof cases
      case 1
      with that have "j \<noteq> c" by simp
      have "ttl' ! j \<noteq> 1"
      proof (cases "ttl ! j \<noteq> 0 \<and> ttl ! j < t")
        case True
        then show ?thesis using nth' [OF \<open>j < N\<close>] \<open>j \<noteq> c\<close> by simp
      next
        case False
        then have eq: "ttl' ! j = ttl ! j" using nth' [OF \<open>j < N\<close>] \<open>j \<noteq> c\<close> by simp
        show ?thesis
        proof (cases "ttl ! j = 0")
          case True then show ?thesis using eq by simp
        next
          case nz: False
          with False have ge: "t \<le> ttl ! j" by simp
          from t show ?thesis
          proof
            assume a: "ttl ! c \<noteq> 0 \<and> t = ttl ! c"
            then have "ttl ! c \<noteq> ttl ! j" using dist [OF c \<open>j < N\<close>] \<open>j \<noteq> c\<close> by auto
            with a ge have "ttl ! j > 1" by linarith
            then show ?thesis using eq by simp
          next
            assume "ttl ! c = 0 \<and> (\<forall>j<N. ttl ! j < t)"
            with ge \<open>j < N\<close> show ?thesis by auto
          qed
        qed
      qed
      then show ?thesis using nth' [OF \<open>i < N\<close>] 1 by simp
    next
      case 2
      have "ttl' ! i \<noteq> 1"
      proof (cases "ttl ! i \<noteq> 0 \<and> ttl ! i < t")
        case True
        then show ?thesis using nth' [OF \<open>i < N\<close>] 2 by simp
      next
        case False
        then have eq: "ttl' ! i = ttl ! i" using nth' [OF \<open>i < N\<close>] 2 by simp
        with that have nz: "ttl ! i \<noteq> 0" by simp
        with False have ge: "t \<le> ttl ! i" by simp
        from t show ?thesis
        proof
          assume a: "ttl ! c \<noteq> 0 \<and> t = ttl ! c"
          then have "ttl ! c \<noteq> ttl ! i" using dist [OF c \<open>i < N\<close>] 2 by auto
          with a ge have "ttl ! i > 1" by linarith
          then show ?thesis using eq by simp
        next
          assume "ttl ! c = 0 \<and> (\<forall>j<N. ttl ! j < t)"
          with ge \<open>i < N\<close> show ?thesis by auto
        qed
      qed
      then show ?thesis using nth' [OF \<open>j < N\<close>] 2 by simp
    next
      case 3
      have ei: "ttl' ! i = (if ttl ! i \<noteq> 0 \<and> ttl ! i < t then ttl ! i + 1 else ttl ! i)"
        using nth' [OF \<open>i < N\<close>] 3 by simp
      have ej: "ttl' ! j = (if ttl ! j \<noteq> 0 \<and> ttl ! j < t then ttl ! j + 1 else ttl ! j)"
        using nth' [OF \<open>j < N\<close>] 3 by simp
      have nzi: "ttl ! i \<noteq> 0" using that(4) ei by (auto split: if_splits)
      have ne: "ttl ! i \<noteq> ttl ! j" using dist [OF that(1,2,3) nzi] .
      show ?thesis using ei ej ne nzi nt [OF \<open>i < N\<close>] nt [OF \<open>j < N\<close>] 3
        by (auto split: if_splits)
    qed
  qed
  have inc: "\<exists>j<N. ttl' ! j = Suc u" if "1 \<le> u" "u < t" "\<exists>j<N. ttl ! j = u" for u
  proof -
    from that obtain j where j: "j < N" "ttl ! j = u" by blast
    with that have "j \<noteq> c" using notc [of j] by simp
    with j that show ?thesis using nth' [OF \<open>j < N\<close>] by auto
  qed
  have C: "\<exists>j<N. ttl' ! j = v" if "i < N" "1 \<le> v" "v < ttl' ! i" for i v
  proof (cases "v = 1")
    case True
    then show ?thesis using nth' [OF c] c by auto
  next
    case False
    with that have v2: "2 \<le> v" by simp
    have ic: "i \<noteq> c" using that nth' [OF \<open>i < N\<close>] by auto
    have ei: "ttl' ! i = (if ttl ! i \<noteq> 0 \<and> ttl ! i < t then ttl ! i + 1 else ttl ! i)"
      using nth' [OF \<open>i < N\<close>] ic by simp
    have pre: "\<exists>j<N. ttl ! j = v - 1"
      using down [OF \<open>i < N\<close>, of "v - 1"] that v2 ei by (auto split: if_splits)
    show ?thesis
    proof (cases "v - 1 < t")
      case True
      then show ?thesis using inc [of "v - 1"] v2 pre by simp
    next
      case False
      then have vt: "t < v" using v2 by linarith
      then have "\<not> (ttl ! i \<noteq> 0 \<and> ttl ! i < t)" using that ei by (auto split: if_splits)
      then have "ttl' ! i = ttl ! i" using ei by simp
      with that have "v < ttl ! i" by simp
      from down [OF \<open>i < N\<close> \<open>1 \<le> v\<close> this]
      obtain j where j: "j < N" "ttl ! j = v" by blast
      have "j \<noteq> c" using t vt j by auto
      then show ?thesis using nth' [OF \<open>j < N\<close>] j vt by auto
    qed
  qed
  show ?thesis unfolding ttl_inv_def using len' D C by blast
qed


lemma acquire_hit_inv:
  assumes inv: "ttl_inv N ttl" and c: "c < N" and nz: "ttl ! c \<noteq> 0"
  shows "ttl_inv N ((ttl_push N c ttl)[c := 1])"
proof (rule ttl_age_inv [OF inv c, where t = "ttl ! c"])
  from inv have len: "length ttl = N" by (simp add: ttl_inv_def)
  show "length ((ttl_push N c ttl)[c := 1]) = N" using ttl_push_length [OF len c] by simp
  show "(ttl_push N c ttl)[c := 1] ! j =
          (if j = c then 1 else if ttl ! j \<noteq> 0 \<and> ttl ! j < ttl ! c then ttl ! j + 1 else ttl ! j)"
    if "j < N" for j
    using that ttl_push_nth [OF len c that] ttl_push_length [OF len c] c
    by (simp add: nth_list_update)
  show "(ttl ! c \<noteq> 0 \<and> ttl ! c = ttl ! c) \<or> (ttl ! c = 0 \<and> (\<forall>j<N. ttl ! j < ttl ! c))"
    using nz by simp
qed

lemma acquire_miss_inv:
  assumes inv: "ttl_inv N ttl" and c: "c < N" and z: "ttl ! c = 0"
  shows "ttl_inv N ((ttl_push N c (ttl[c := N + 1]))[c := 1])"
proof (rule ttl_age_inv [OF inv c, where t = "N + 1"])
  from inv have len: "length ttl = N" by (simp add: ttl_inv_def)
  then have len1: "length (ttl[c := N + 1]) = N" by simp
  show "length ((ttl_push N c (ttl[c := N + 1]))[c := 1]) = N"
    using ttl_push_length [OF len1 c] by simp
  show "(ttl_push N c (ttl[c := N + 1]))[c := 1] ! j =
          (if j = c then 1 else if ttl ! j \<noteq> 0 \<and> ttl ! j < N + 1 then ttl ! j + 1 else ttl ! j)"
    if "j < N" for j
    using that ttl_push_nth [OF len1 c that] ttl_push_length [OF len1 c] c len
    by (simp add: nth_list_update)
  show "(ttl ! c \<noteq> 0 \<and> N + 1 = ttl ! c) \<or> (ttl ! c = 0 \<and> (\<forall>j<N. ttl ! j < N + 1))"
    using z ttl_inv_le_N [OF inv] by (simp add: less_Suc_eq_le)
qed

lemma cache_victim_candidate:
  assumes inv: "ttl_inv N ttl" and N: "0 < N"
  shows "cache_victim N ttl < N \<and> (ttl ! cache_victim N ttl = 0 \<or> N \<le> ttl ! cache_victim N ttl)"
  using victim_fold [of "\<lambda>i. ttl ! i = 0 \<or> N \<le> ttl ! i" N "cache_victim N ttl"]
    ttl_inv_candidate [OF inv N]
  by (auto simp: cache_victim_def)

lemma getFATCacheIdx_ttl:
  assumes inv: "ttl_inv (FAT_CACHE_N K) (fatc_ttl fatfs)" and N: "0 < FAT_CACHE_N K"
    and res: "getFATCacheIdx K rd fatfs sect = (r, fatfs')"
  shows "(case r of
            Inl e \<Rightarrow> fatc_ttl fatfs' = fatc_ttl fatfs
          | Inr cidx \<Rightarrow> ttl_inv (FAT_CACHE_N K) (fatc_ttl fatfs') \<and> cidx < FAT_CACHE_N K \<and>
                         fatc_ttl fatfs' ! cidx = 1)"
proof (cases "find (cache_hit K fatfs sect) [0..<FAT_CACHE_N K]")
  case (Some i)
  then have i: "i < FAT_CACHE_N K" and hit: "cache_hit K fatfs sect i"
    by (auto simp: find_Some_iff)
  from hit have nz: "fatc_ttl fatfs ! i \<noteq> 0" by (simp add: cache_hit_def)
  from inv have len: "length (fatc_ttl fatfs) = FAT_CACHE_N K" by (simp add: ttl_inv_def)
  from res Some have r: "r = Inr i"
    and f': "fatc_ttl fatfs' = (ttl_push (FAT_CACHE_N K) i (fatc_ttl fatfs))[i := 1]"
    by (auto simp: getFATCacheIdx_def)
  show ?thesis
    using acquire_hit_inv [OF inv i nz] i ttl_push_length [OF len i] by (simp add: r f')
next
  case None
  let ?c = "cache_victim (FAT_CACHE_N K) (fatc_ttl fatfs)"
  from cache_victim_candidate [OF inv N]
  have c: "?c < FAT_CACHE_N K"
    and cand: "fatc_ttl fatfs ! ?c = 0 \<or> FAT_CACHE_N K \<le> fatc_ttl fatfs ! ?c" by auto
  from inv have len: "length (fatc_ttl fatfs) = FAT_CACHE_N K" by (simp add: ttl_inv_def)
  show ?thesis
  proof (cases "fatc_ttl fatfs ! ?c = 0")
    case True
    show ?thesis
      using res None True acquire_miss_inv [OF inv c True] c len
        ttl_push_length [of "(fatc_ttl fatfs)[?c := FAT_CACHE_N K + 1]" "FAT_CACHE_N K" ?c]
      by (auto simp: getFATCacheIdx_def Let_def split: prod.splits if_splits)
  next
    case False
    show ?thesis
      using res None False acquire_hit_inv [OF inv c False] c len
        ttl_push_length [OF len c]
      by (auto simp: getFATCacheIdx_def Let_def split: prod.splits if_splits)
  qed
qed

lemma ttl_inv_replicate: "ttl_inv N (replicate N 0)"
  by (simp add: ttl_inv_def)

lemma acquire_all_ttl_inv:
  assumes "ttl_inv (FAT_CACHE_N K) (fatc_ttl fatfs0)" "0 < FAT_CACHE_N K"
    and "acquire_all K rd fatfs0 sects = Some fatfs"
  shows "ttl_inv (FAT_CACHE_N K) (fatc_ttl fatfs)"
  using assms
proof (induction sects arbitrary: fatfs0)
  case Nil
  then show ?case by simp
next
  case (Cons sect sects)
  obtain r f1 where g: "getFATCacheIdx K rd fatfs0 sect = (r, f1)" by (cases "getFATCacheIdx K rd fatfs0 sect")
  with Cons.prems(3) obtain cidx where r: "r = Inr cidx" and rest: "acquire_all K rd f1 sects = Some fatfs"
    by (cases r) auto
  from getFATCacheIdx_ttl [OF Cons.prems(1,2) g] r
  have "ttl_inv (FAT_CACHE_N K) (fatc_ttl f1)" by simp
  from Cons.IH [OF this Cons.prems(2) rest] show ?case .
qed

text \<open>
  C2. From the state at open time, in which every TTL is 0, after any sequence of successful
  \<^verbatim>\<open>getFATCacheIdx\<close> calls the slots in use have pairwise distinct TTLs, all between 1 and
  N + 1, and the only slot with TTL 1 is the one the last call has returned.
\<close>

theorem getFATCacheIdx_ttl_distinct:
  assumes "0 < FAT_CACHE_N K"
    and "fatc_ttl fatfs0 = replicate (FAT_CACHE_N K) 0"
    and "acquire_all K rd fatfs0 sects = Some fatfs"
    and "getFATCacheIdx K rd fatfs sect = (Inr cidx, fatfs')"
  shows "length (fatc_ttl fatfs') = FAT_CACHE_N K \<and>
         (\<forall>i<FAT_CACHE_N K. \<forall>j<FAT_CACHE_N K.
            i \<noteq> j \<and> 0 < fatc_ttl fatfs' ! i \<and> 0 < fatc_ttl fatfs' ! j \<longrightarrow>
            fatc_ttl fatfs' ! i \<noteq> fatc_ttl fatfs' ! j) \<and>
         (\<forall>i<FAT_CACHE_N K. 0 < fatc_ttl fatfs' ! i \<longrightarrow>
            1 \<le> fatc_ttl fatfs' ! i \<and> fatc_ttl fatfs' ! i \<le> FAT_CACHE_N K + 1) \<and>
         cidx < FAT_CACHE_N K \<and>
         (\<forall>i<FAT_CACHE_N K. fatc_ttl fatfs' ! i = 1 \<longleftrightarrow> i = cidx)"
proof -
  let ?N = "FAT_CACHE_N K"
  have "ttl_inv ?N (fatc_ttl fatfs0)" using assms(2) by (simp add: ttl_inv_replicate)
  from acquire_all_ttl_inv [OF this assms(1,3)]
  have "ttl_inv ?N (fatc_ttl fatfs)" .
  from getFATCacheIdx_ttl [OF this assms(1,4)]
  have inv: "ttl_inv ?N (fatc_ttl fatfs')" and c: "cidx < ?N" and one: "fatc_ttl fatfs' ! cidx = 1"
    by simp_all
  have len: "length (fatc_ttl fatfs') = ?N" using inv by (simp add: ttl_inv_def)
  have dist: "fatc_ttl fatfs' ! i \<noteq> fatc_ttl fatfs' ! j"
    if "i < ?N" "j < ?N" "i \<noteq> j" "fatc_ttl fatfs' ! i \<noteq> 0" for i j
    using inv that unfolding ttl_inv_def by blast
  have bound: "fatc_ttl fatfs' ! i \<le> ?N + 1" if "i < ?N" for i
    using ttl_inv_le_N [OF inv that] by simp
  have uniq: "(fatc_ttl fatfs' ! i = 1) = (i = cidx)" if "i < ?N" for i
  proof
    assume "fatc_ttl fatfs' ! i = 1"
    with one dist [OF c that] show "i = cidx" by (cases "cidx = i") simp_all
  next
    assume "i = cidx"
    with one show "fatc_ttl fatfs' ! i = 1" by simp
  qed
  show ?thesis using len dist bound c uniq by auto
qed

lemma ex_acquire_4:
  "\<exists>S cidx S'.
      acquire_all ex_consts (image_reader ex_disk) ex_fatfs [8, 16, 8] = Some S \<and>
      getFATCacheIdx ex_consts (image_reader ex_disk) S 24 = (Inr cidx, S') \<and>
      0 < fatc_ttl S' ! 2 \<and> 0 < fatc_ttl S' ! 3"
  by (simp add: cache_eval ex_fatfs_def ex_consts_def)

theorem getFATCacheIdx_ttl_distinct_witness:
  "0 < FAT_CACHE_N ex_consts \<and> fatc_ttl ex_fatfs = replicate (FAT_CACHE_N ex_consts) 0 \<and>
   (\<exists>S cidx S'.
      acquire_all ex_consts (image_reader ex_disk) ex_fatfs [8, 16, 8] = Some S \<and>
      getFATCacheIdx ex_consts (image_reader ex_disk) S 24 = (Inr cidx, S') \<and>
      length (fatc_ttl S') = 4 \<and> cidx < 4 \<and> fatc_ttl S' ! cidx = 1 \<and>
      fatc_ttl S' ! 2 \<noteq> fatc_ttl S' ! 3 \<and> fatc_ttl S' ! 3 \<le> 5)"
proof -
  have N: "0 < FAT_CACHE_N ex_consts" by (simp add: ex_consts_def)
  have z: "fatc_ttl ex_fatfs = replicate (FAT_CACHE_N ex_consts) 0"
    by (simp add: ex_fatfs_def ex_consts_def replicate_4)
  from ex_acquire_4 obtain S cidx S' where
    S: "acquire_all ex_consts (image_reader ex_disk) ex_fatfs [8, 16, 8] = Some S"
    and g: "getFATCacheIdx ex_consts (image_reader ex_disk) S 24 = (Inr cidx, S')"
    and nz: "0 < fatc_ttl S' ! 2" "0 < fatc_ttl S' ! 3" by blast
  have N4: "FAT_CACHE_N ex_consts = 4" by (simp add: ex_consts_def)
  note T = getFATCacheIdx_ttl_distinct [OF N z S g, unfolded N4]
  from T have len: "length (fatc_ttl S') = 4" by (rule conjunct1)
  from T have d: "\<forall>i<4. \<forall>j<4. i \<noteq> j \<and> 0 < fatc_ttl S' ! i \<and> 0 < fatc_ttl S' ! j \<longrightarrow>
                    fatc_ttl S' ! i \<noteq> fatc_ttl S' ! j"
    by (rule conjunct2 [THEN conjunct1])
  from T have b: "\<forall>i<4. 0 < fatc_ttl S' ! i \<longrightarrow> 1 \<le> fatc_ttl S' ! i \<and> fatc_ttl S' ! i \<le> 4 + 1"
    by (rule conjunct2 [THEN conjunct2, THEN conjunct1])
  from T have c: "cidx < 4" by (rule conjunct2 [THEN conjunct2, THEN conjunct2, THEN conjunct1])
  from T have u: "\<forall>i<4. fatc_ttl S' ! i = 1 \<longleftrightarrow> i = cidx"
    by (rule conjunct2 [THEN conjunct2, THEN conjunct2, THEN conjunct2])
  from u c have one: "fatc_ttl S' ! cidx = 1" by simp
  from d [rule_format, of 2 3] nz have ne: "fatc_ttl S' ! 2 \<noteq> fatc_ttl S' ! 3" by simp
  from b [rule_format, of 3] nz have le: "fatc_ttl S' ! 3 \<le> 5" by simp
  from N z S g len c one ne le show ?thesis by blast
qed

text \<open>
  C8. In every cache state reached from the state at open time by successful
  \<^verbatim>\<open>getFATCacheIdx\<close> calls some slot is unused or has a TTL of at least N, and the slot
  that the victim search of the miss path selects is such a slot.
\<close>

theorem cache_victim_genuine:
  assumes "0 < FAT_CACHE_N K"
    and "fatc_ttl fatfs0 = replicate (FAT_CACHE_N K) 0"
    and "acquire_all K rd fatfs0 sects = Some fatfs"
  shows "(\<exists>i<FAT_CACHE_N K. fatc_ttl fatfs ! i = 0 \<or> FAT_CACHE_N K \<le> fatc_ttl fatfs ! i) \<and>
         cache_victim (FAT_CACHE_N K) (fatc_ttl fatfs) < FAT_CACHE_N K \<and>
         (fatc_ttl fatfs ! cache_victim (FAT_CACHE_N K) (fatc_ttl fatfs) = 0 \<or>
          FAT_CACHE_N K \<le> fatc_ttl fatfs ! cache_victim (FAT_CACHE_N K) (fatc_ttl fatfs))"
proof -
  have "ttl_inv (FAT_CACHE_N K) (fatc_ttl fatfs0)" using assms(2) by (simp add: ttl_inv_replicate)
  from acquire_all_ttl_inv [OF this assms(1,3)]
  have inv: "ttl_inv (FAT_CACHE_N K) (fatc_ttl fatfs)" .
  from ttl_inv_candidate [OF inv assms(1)] cache_victim_candidate [OF inv assms(1)]
  show ?thesis by blast
qed

lemma ex_acquire_5:
  "\<exists>S. acquire_all ex_consts (image_reader ex_disk) ex_fatfs [8, 16, 24, 32, 40] = Some S \<and>
       fatc_ttl S = [2, 3, 4, 1]"
  by (simp add: cache_eval ex_fatfs_def ex_consts_def)

theorem cache_victim_genuine_witness:
  "0 < FAT_CACHE_N ex_consts \<and> fatc_ttl ex_fatfs = replicate (FAT_CACHE_N ex_consts) 0 \<and>
   (\<exists>S. acquire_all ex_consts (image_reader ex_disk) ex_fatfs [8, 16, 24, 32, 40] = Some S \<and>
        fatc_ttl S = [2, 3, 4, 1] \<and>
        cache_victim 4 (fatc_ttl S) < 4 \<and>
        (fatc_ttl S ! cache_victim 4 (fatc_ttl S) = 0 \<or>
         4 \<le> fatc_ttl S ! cache_victim 4 (fatc_ttl S)))"
proof -
  have N: "0 < FAT_CACHE_N ex_consts" by (simp add: ex_consts_def)
  have z: "fatc_ttl ex_fatfs = replicate (FAT_CACHE_N ex_consts) 0"
    by (simp add: ex_fatfs_def ex_consts_def replicate_4)
  from ex_acquire_5 obtain S where
    S: "acquire_all ex_consts (image_reader ex_disk) ex_fatfs [8, 16, 24, 32, 40] = Some S"
    and ttl: "fatc_ttl S = [2, 3, 4, 1]" by blast
  have N4: "FAT_CACHE_N ex_consts = 4" by (simp add: ex_consts_def)
  from cache_victim_genuine [OF N z S, unfolded N4]
  have "cache_victim 4 (fatc_ttl S) < 4 \<and>
        (fatc_ttl S ! cache_victim 4 (fatc_ttl S) = 0 \<or>
         4 \<le> fatc_ttl S ! cache_victim 4 (fatc_ttl S))"
    by (rule conjunct2)
  with N z S ttl show ?thesis by blast
qed

section \<open>The chain resolver: requests beyond the last cluster\<close>

text \<open>
  C10. When \<^verbatim>\<open>fatfs_getFAT\<close> is called for a cluster beyond the last one that is not the
  accepted request for \<open>lastclust + 1\<close>, it fails with ARG and leaves the handle (with its
  whole cache) and \<^verbatim>\<open>*value\<close> as they were.
\<close>

theorem fatfs_getFAT_arg_unchanged:
  assumes "lastclust fatfs < clust"
    and "\<not> (clust = lastclust fatfs + 1 \<and>
             firstclustsect fatfs + ucast (csize fatfs) * clustcnt fatfs - 1 \<noteq>
               last_block (fs_info fatfs))"
  shows "fatfs_getFAT K rd fatfs clust val = Some (Some TSK_ERR_FS_ARG, val, fatfs)"
  using assms by (auto simp: fatfs_getFAT_def Let_def)

theorem fatfs_getFAT_arg_unchanged_witness:
  "lastclust ex_fatfs < 9000 \<and>
   \<not> (9000 = lastclust ex_fatfs + 1 \<and>
       firstclustsect ex_fatfs + ucast (csize ex_fatfs) * clustcnt ex_fatfs - 1 \<noteq>
         last_block (fs_info ex_fatfs)) \<and>
   fatfs_getFAT ex_consts (image_reader ex_disk) ex_fatfs 9000 7 =
     Some (Some TSK_ERR_FS_ARG, 7, ex_fatfs)"
proof -
  have a: "lastclust ex_fatfs < 9000" by (simp add: ex_fatfs_def)
  have b: "\<not> (9000 = lastclust ex_fatfs + 1 \<and>
       firstclustsect ex_fatfs + ucast (csize ex_fatfs) * clustcnt ex_fatfs - 1 \<noteq>
         last_block (fs_info ex_fatfs))" by (simp add: ex_fatfs_def)
  from fatfs_getFAT_arg_unchanged [OF a b] a b show ?thesis by blast
qed

text \<open>
  C3. A request for cluster \<open>lastclust + 1\<close> on a file system with sectors behind the last
  cluster returns 0, and \<^verbatim>\<open>*value\<close> keeps what it held at the call: here 7, not 0.
\<close>

theorem fatfs_getFAT_tail_value_unset:
  "fatfs_getFAT ex_consts (image_reader ex_disk) ex_fatfs 8191 7 = Some (None, 7, ex_fatfs)"
  by (simp add: fatfs_getFAT_def Let_def ex_fatfs_def)

lemma fatfs_getFAT_tail:
  assumes "clust = lastclust fatfs + 1" "lastclust fatfs < clust"
    and "firstclustsect fatfs + ucast (csize fatfs) * clustcnt fatfs - 1 \<noteq>
           last_block (fs_info fatfs)"
  shows "fatfs_getFAT K rd fatfs clust val = Some (None, val, fatfs)"
  using assms by (auto simp: fatfs_getFAT_def Let_def)

lemma xtaf_geometry_clustcnt:
  "xtaf_geometry sz off = Some (rs, spf, cc, lc) \<Longrightarrow> 4085 \<le> cc \<and> 0x1000 \<le> lc"
  by (auto simp: xtaf_geometry_def split: if_splits)

lemma if_InrD: "(if c then Inl x else y) = Inr z \<Longrightarrow> \<not> c \<and> y = Inr z"
  by (simp split: if_splits)

lemma case_option_InrD:
  "(case opt of None \<Rightarrow> Inl x | Some p \<Rightarrow> f p) = Inr z \<Longrightarrow> \<exists>p. opt = Some p \<and> f p = Inr z"
  by (cases opt) simp_all

text \<open>
  What every handle returned by \<^verbatim>\<open>fatfs_open\<close> looks like: sectors of 512 bytes, an empty
  cache, a flavor that is FAT16 or FAT32 and never the one of a request for FAT12, and a
  last cluster of at least \<open>0x1000\<close>.
\<close>

lemma fatfs_open_sb_fields:
  assumes o: "fatfs_open_sb K L img off a_ftype fatsb e = Inr fatfs"
  shows "ssize fatfs = 512 \<and> ssize_sh fatfs = 9 \<and> block_size (fs_info fatfs) = 512 \<and>
         fatc_buf fatfs = replicate (FAT_CACHE_N K) (replicate (FAT_CACHE_B K) 0) \<and>
         fatc_addr fatfs = replicate (FAT_CACHE_N K) 0 \<and>
         fatc_ttl fatfs = replicate (FAT_CACHE_N K) 0 \<and>
         a_ftype \<noteq> TSK_FS_TYPE_FAT12 \<and>
         (ftype (fs_info fatfs) = TSK_FS_TYPE_FAT16 \<or>
          ftype (fs_info fatfs) = TSK_FS_TYPE_FAT32) \<and>
         0x1000 \<le> lastclust fatfs"
  using o unfolding fatfs_open_sb_def Let_def
  apply (simp only: XTAF_SECTOR_SIZE_def simp_thms if_True option.case)
  apply (drule if_InrD, erule conjE, thin_tac "\<not> _")
  apply (drule if_InrD, erule conjE, thin_tac "\<not> _")
  apply (drule case_option_InrD, erule exE, erule conjE)
  subgoal for p
    apply (cases p rule: prod_cases4)
    apply (simp only: prod.case)
    apply (drule if_InrD, erule conjE, thin_tac "\<not> _")
    apply (drule if_InrD, erule conjE, thin_tac "\<not> _")
    apply (drule if_InrD, erule conjE)
    apply (drule case_option_InrD, erule exE, erule conjE)
    apply (drule xtaf_geometry_clustcnt)
    apply (auto split: if_splits)
    done
  done

lemma fatfs_open_fields:
  assumes o: "fatfs_open K L rd e0 img off a_ftype = Inr fatfs"
  shows "ssize fatfs = 512 \<and> ssize_sh fatfs = 9 \<and> block_size (fs_info fatfs) = 512 \<and>
         fatc_buf fatfs = replicate (FAT_CACHE_N K) (replicate (FAT_CACHE_B K) 0) \<and>
         fatc_addr fatfs = replicate (FAT_CACHE_N K) 0 \<and>
         fatc_ttl fatfs = replicate (FAT_CACHE_N K) 0 \<and>
         a_ftype \<noteq> TSK_FS_TYPE_FAT12 \<and>
         (ftype (fs_info fatfs) = TSK_FS_TYPE_FAT16 \<or>
          ftype (fs_info fatfs) = TSK_FS_TYPE_FAT32) \<and>
         0x1000 \<le> lastclust fatfs"
proof -
  from o obtain fatsb e where "fatfs_open_sb K L img off a_ftype fatsb e = Inr fatfs"
    by (auto simp: fatfs_open_def split: if_splits sb_round.splits)
  then show ?thesis by (rule fatfs_open_sb_fields)
qed









section \<open>The chain resolver: entries outside the cluster range\<close>









lemma fat_geom_ok_cache [simp]:
  "fat_geom_ok K (fatfs\<lparr>fatc_buf := b\<rparr>) = fat_geom_ok K fatfs"
  "fat_geom_ok K (fatfs\<lparr>fatc_addr := a\<rparr>) = fat_geom_ok K fatfs"
  "fat_geom_ok K (fatfs\<lparr>fatc_ttl := t\<rparr>) = fat_geom_ok K fatfs"
  by (simp_all add: fat_geom_ok_def)
















lemma fat_sanity_cache [simp]:
  "fat_sanity (fatfs\<lparr>fatc_buf := b\<rparr>) m v = fat_sanity fatfs m v"
  "fat_sanity (fatfs\<lparr>fatc_addr := a\<rparr>) m v = fat_sanity fatfs m v"
  "fat_sanity (fatfs\<lparr>fatc_ttl := t\<rparr>) m v = fat_sanity fatfs m v"
  by (simp_all add: fat_sanity_def)




text \<open>
  A handle that \<^verbatim>\<open>fatfs_open\<close> has returned has this geometry and a coherent cache, for
  every image, when the slots of the header are made of sectors of 512 bytes.
\<close>

lemma fatfs_open_geom:
  assumes o: "fatfs_open K L rd e0 img off a_ftype = Inr fatfs"
    and N: "0 < FAT_CACHE_N K" and S: "2 \<le> FAT_CACHE_S K"
    and B: "FAT_CACHE_B K = FAT_CACHE_S K * 512"
  shows "fat_geom_ok K fatfs \<and> cache_coherent K I fatfs"
proof -
  note f = fatfs_open_fields [OF o]
  have g: "fat_geom_ok K fatfs"
    using N S B by (simp add: fat_geom_ok_def f)
  have c: "cache_coherent K I fatfs"
    by (simp add: cache_coherent_def f)
  from g c show ?thesis ..
qed









section \<open>Registry cells\<close>

lemma sign_bit_32: "(w :: 32 word) AND push_bit 31 1 \<noteq> 0 \<longleftrightarrow> sint w < 0"
proof -
  have "push_bit 31 (1 :: 32 word) = 2 ^ 31" by simp
  then have "(w AND push_bit 31 1 \<noteq> 0) = bit w 31"
    by (simp only: and_exp_eq_0_iff_not_bit) simp
  also have "\<dots> = (sint w < 0)" using bit_last_iff [of w] by simp
  finally show ?thesis .
qed

lemma sint_uint_32:
  "sint (w :: 32 word) = uint w - (if sint w < 0 then 2 ^ 32 else 0)"
proof -
  have tb: "take_bit 32 (uint w) = uint w" by (simp add: bintr_uint)
  have "sint w = signed_take_bit 31 (uint w)" by (simp add: sint_uint)
  also have "\<dots> = take_bit 32 (uint w) - 2 ^ 32 * of_bool (bit (uint w) 31)"
    by (simp add: signed_take_bit_eq_take_bit_minus)
  also have "bit (uint w) 31 = (sint w < 0)"
    using bit_last_iff [of w] by (simp add: bit_uint_iff)
  finally have eq: "sint w = uint w - 2 ^ 32 * of_bool (sint w < 0)" by (simp only: tb)
  show ?thesis
  proof (cases "sint w < 0")
    case True
    then have b: "(of_bool (sint w < 0) :: int) = 1" by simp
    from eq [unfolded b] True show ?thesis by simp
  next
    case False
    then have b: "(of_bool (sint w < 0) :: int) = 0" by simp
    from eq [unfolded b] False show ?thesis by simp
  qed
qed

lemma uint_neg_32: "sint (w :: 32 word) < 0 \<Longrightarrow> uint (- 1 * w) = \<bar>sint w\<bar>"
proof -
  assume neg: "sint w < 0"
  then have s: "sint w = uint w - 2 ^ 32" using sint_uint_32 [of w] by simp
  have lt: "uint w < 2 ^ 32" using uint_bounded [of w] by simp
  have pos: "0 < uint w" using sint_greater_eq [of w] s by simp
  have "uint (- w) = (- uint w) mod 2 ^ 32" by (simp add: uint_word_ariths)
  also have "\<dots> = 2 ^ 32 - uint w"
    using pos lt by (simp add: zmod_zminus1_eq_if)
  finally show ?thesis using s neg by simp
qed

lemma uint_pos_32: "\<not> sint (w :: 32 word) < 0 \<Longrightarrow> uint w = \<bar>sint w\<bar>"
  using sint_uint_32 [of w] by simp

text \<open>
  C5. For a 6-byte cell header whose first four bytes are the little-endian signed 32-bit
  integer L, \<^verbatim>\<open>reg_load_cell\<close> sets \<open>is_allocated\<close> to 1 if L is negative and to 0
  otherwise, sets the length to the absolute value of L, and fails with INODE_COR exactly
  when that length is 4096 or more.
\<close>

theorem reg_load_cell_sign_rule:
  assumes "endian fs = TSK_LIT_ENDIAN"
    and "first_block fs \<le> a_inum" "a_inum \<le> last_block fs"
    and "rd a_inum 6 = Some hdr" "length hdr = 6"
    and "L = sint (tsk_getu32 TSK_LIT_ENDIAN hdr)"
    and "reg_load_cell rd fs cell a_inum = (r, cell')"
  shows "cell_is_allocated cell' = (if L < 0 then 1 else 0) \<and>
         uint (cell_length cell') = \<bar>L\<bar> \<and>
         (r = Some TSK_ERR_FS_INODE_COR \<longleftrightarrow> 4096 \<le> \<bar>L\<bar>) \<and>
         (r = None \<longleftrightarrow> \<bar>L\<bar> < 4096)"
proof -
  let ?w = "tsk_getu32 TSK_LIT_ENDIAN hdr"
  have rdq: "tsk_fs_read rd a_inum (replicate 6 0) 6 = (Some 6, hdr)"
    using assms(4,5) by (simp add: tsk_fs_read_def)
  have inr: "\<not> (a_inum < first_block fs \<or> last_block fs < a_inum)"
    using assms(2,3) by (simp add: not_less)
  have ge: "(HBIN_SIZE \<le> v) = (4096 \<le> uint v)" for v :: "32 word"
    by (simp add: HBIN_SIZE_def word_le_def)
  show ?thesis
  proof (cases "sint ?w < 0")
    case True
    then have b: "?w AND push_bit 31 1 \<noteq> 0" using sign_bit_32 [of ?w] by blast
    from uint_neg_32 [OF True] have u: "uint (- 1 * ?w) = \<bar>L\<bar>" using assms(6) by simp
    show ?thesis
      using assms(7) True b u ge [of "- 1 * ?w"]
      unfolding reg_load_cell_def
      by (simp only: inr if_False rdq Let_def prod.case assms(1) assms(6) [symmetric])
         (auto split: if_splits)
  next
    case False
    then have b: "\<not> ?w AND push_bit 31 1 \<noteq> 0" using sign_bit_32 [of ?w] by blast
    from uint_pos_32 [OF False] have u: "uint ?w = \<bar>L\<bar>" using assms(6) by simp
    show ?thesis
      using assms(7) False b u ge [of ?w]
      unfolding reg_load_cell_def
      by (simp only: inr if_False rdq Let_def prod.case assms(1) assms(6) [symmetric])
         (auto split: if_splits)
  qed
qed

lemma img_slice_6:
  "img_slice I off 6 =
     [disk_byte I off, disk_byte I (off + 1), disk_byte I (off + 2), disk_byte I (off + 3),
      disk_byte I (off + 4), disk_byte I (off + 5)]"
  by (rule nth_equalityI) (auto simp: less_Suc_eq numeral_eq_Suc nth_Cons')

lemma ex_hive_len [simp]: "disk_len ex_hive_disk = 16384"
  by (simp add: ex_hive_disk_def)

lemma ex_hive_hdr:
  "image_reader ex_hive_disk 0x1000 6 = Some [0xF8, 0xFF, 0xFF, 0xFF, 0x6E, 0x6B]"
  by (simp add: image_reader_def img_slice_6) (simp add: ex_hive_disk_def)

lemma ex_regfs_open:
  "regfs_open ex_regf_layout (image_reader ex_hive_disk) ex_hive_img TSK_FS_TYPE_REG =
     Inr ex_hive"
proof -
  have rd: "tsk_fs_read (image_reader ex_hive_disk) 0 (replicate 4096 0) 4096 =
              (Some 4096, img_slice ex_hive_disk 0 4096)"
    by (simp add: tsk_fs_read_image)
  have m: "tsk_getu32 TSK_LIT_ENDIAN (img_slice ex_hive_disk 0 4) = REG_REGF_MAGIC"
    by (simp add: tsk_getu32_def REG_REGF_MAGIC_def) (simp add: ex_hive_disk_def)
  have l: "tsk_getu32 TSK_LIT_ENDIAN (img_slice ex_hive_disk 40 4) = 0x2000"
    by (simp add: tsk_getu32_def) (simp add: ex_hive_disk_def)
  have regf: "reg_load_regf ex_regf_layout (image_reader ex_hive_disk) TSK_LIT_ENDIAN =
                Inr (img_slice ex_hive_disk 0 4096)"
    by (simp add: reg_load_regf_def ex_regf_layout_def rd m)
  show ?thesis
    by (simp add: regfs_open_def TSK_FS_TYPE_ISREG_def regf)
       (simp add: ex_regf_layout_def l ex_hive_def ex_hive_img_def HBIN_SIZE_def
          FIRST_HBIN_OFFSET_def signed_divide_int_def signed_modulo_int_def)
qed

theorem reg_load_cell_sign_rule_witness:
  "endian ex_hive = TSK_LIT_ENDIAN \<and> first_block ex_hive \<le> 0x1000 \<and>
   0x1000 \<le> last_block ex_hive \<and>
   image_reader ex_hive_disk 0x1000 6 = Some [0xF8, 0xFF, 0xFF, 0xFF, 0x6E, 0x6B] \<and>
   sint (tsk_getu32 TSK_LIT_ENDIAN [0xF8, 0xFF, 0xFF, 0xFF, 0x6E, 0x6B]) = - 8 \<and>
   fst (reg_load_cell (image_reader ex_hive_disk) ex_hive ex_cell 0x1000) = None \<and>
   cell_is_allocated (snd (reg_load_cell (image_reader ex_hive_disk) ex_hive ex_cell 0x1000)) = 1 \<and>
   uint (cell_length (snd (reg_load_cell (image_reader ex_hive_disk) ex_hive ex_cell 0x1000))) = 8"
proof -
  let ?hdr = "[0xF8, 0xFF, 0xFF, 0xFF, 0x6E, 0x6B] :: byte list"
  have e: "endian ex_hive = TSK_LIT_ENDIAN" by (simp add: ex_hive_def)
  have lo: "first_block ex_hive \<le> 0x1000" by (simp add: ex_hive_def)
  have hi: "0x1000 \<le> last_block ex_hive" by (simp add: ex_hive_def)
  have len: "length ?hdr = 6" by simp
  have L: "sint (tsk_getu32 TSK_LIT_ENDIAN ?hdr) = - 8" by (simp add: tsk_getu32_def)
  obtain r c where res: "reg_load_cell (image_reader ex_hive_disk) ex_hive ex_cell 0x1000 = (r, c)"
    by (cases "reg_load_cell (image_reader ex_hive_disk) ex_hive ex_cell 0x1000")
  from reg_load_cell_sign_rule [OF e lo hi ex_hive_hdr len L [symmetric] res]
  have "cell_is_allocated c = 1 \<and> uint (cell_length c) = 8 \<and> r = None" by simp
  with e lo hi ex_hive_hdr L res show ?thesis by simp
qed

lemma regfs_open_ranges:
  assumes "regfs_open L rd0 img a_ftype = Inr fs"
  shows "\<exists>lho :: 32 word. first_block fs = 0 \<and> last_block fs = ucast lho \<and>
           first_inum fs = 0x1000 \<and> last_inum fs = ucast (lho + 0x1000)"
  using assms
  by (auto simp: regfs_open_def Let_def FIRST_HBIN_OFFSET_def HBIN_SIZE_def
           split: if_splits sum.splits)

text \<open>
  Every inode number above the last block of the handle is refused by \<^verbatim>\<open>reg_load_cell\<close>,
  and with it by \<^verbatim>\<open>reg_file_add_meta\<close> whenever its own check against the inode range has
  let the number pass: the cells of the last HBIN cannot be looked up.
\<close>

lemma reg_load_cell_above_last_block:
  assumes "last_block fs < a_inum"
  shows "reg_load_cell rd fs cell a_inum = (Some TSK_ERR_FS_BLK_NUM, cell)"
  using assms by (simp add: reg_load_cell_def)

lemma reg_file_add_meta_last_hbin:
  assumes "first_inum fs \<le> a_inum" "a_inum \<le> last_inum fs" "last_block fs < a_inum"
  shows "reg_file_add_meta rd fs True cell0 a_inum = Inl TSK_ERR_FS_BLK_NUM"
  using assms
  by (simp add: reg_file_add_meta_def reg_load_cell_above_last_block not_less [symmetric])

text \<open>
  C6. For the example hive \<^verbatim>\<open>regfs_open\<close> sets the inode range to \<open>[0x1000, 0x3000]\<close> and the
  block range to \<open>[0, 0x2000]\<close>, and \<^verbatim>\<open>reg_load_cell\<close> compares the offset with the block
  range. Offset \<open>0x2020\<close>, a cell of the last HBIN, is inside the inode range:
  \<^verbatim>\<open>reg_file_add_meta\<close> lets it pass its own check and hands it to \<^verbatim>\<open>reg_load_cell\<close>, which
  refuses it with BLK_NUM. Offset 0, outside the inode range, is not refused with BLK_NUM:
  the header of the file is read as a cell.
\<close>

theorem reg_load_cell_rejects_last_hbin:
  "regfs_open ex_regf_layout (image_reader ex_hive_disk) ex_hive_img TSK_FS_TYPE_REG =
     Inr ex_hive \<and>
   first_inum ex_hive = 0x1000 \<and> last_inum ex_hive = 0x3000 \<and>
   first_block ex_hive = 0 \<and> last_block ex_hive = 0x2000 \<and>
   reg_load_cell (image_reader ex_hive_disk) ex_hive ex_cell 0x2020 =
     (Some TSK_ERR_FS_BLK_NUM, ex_cell) \<and>
   reg_file_add_meta (image_reader ex_hive_disk) ex_hive True ex_cell 0x2020 =
     Inl TSK_ERR_FS_BLK_NUM \<and>
   fst (reg_load_cell (image_reader ex_hive_disk) ex_hive ex_cell 0) \<noteq>
     Some TSK_ERR_FS_BLK_NUM \<and>
   cell_inum (snd (reg_load_cell (image_reader ex_hive_disk) ex_hive ex_cell 0)) = 0"
proof -
  have r: "first_inum ex_hive = 0x1000" "last_inum ex_hive = 0x3000"
    "first_block ex_hive = 0" "last_block ex_hive = 0x2000"
    by (simp_all add: ex_hive_def)
  have a: "reg_load_cell (image_reader ex_hive_disk) ex_hive ex_cell 0x2020 =
             (Some TSK_ERR_FS_BLK_NUM, ex_cell)"
    by (simp add: reg_load_cell_def r)
  have b: "reg_file_add_meta (image_reader ex_hive_disk) ex_hive True ex_cell 0x2020 =
             Inl TSK_ERR_FS_BLK_NUM"
    by (simp add: reg_file_add_meta_def r a)
  have c: "fst (reg_load_cell (image_reader ex_hive_disk) ex_hive ex_cell 0) \<noteq>
             Some TSK_ERR_FS_BLK_NUM \<and>
           cell_inum (snd (reg_load_cell (image_reader ex_hive_disk) ex_hive ex_cell 0)) = 0"
    by (simp add: reg_load_cell_def r Let_def split: prod.splits)
  show ?thesis using ex_regfs_open r a b c by simp
qed

section \<open>The Registry block walker\<close>

lemma reg_loop_step:
  assumes bs: "block_size fs = HBIN_SIZE" and lt: "blk < a_end_blk"
  shows "reg_block_loop rd fs cb a_end_blk blk u =
           (if \<not> reg_read_full rd blk then (Some TSK_ERR_CALLEE, u)
            else case cb (reg_block_view rd blk) u of
                   (TSK_WALK_STOP, u') \<Rightarrow> (None, u')
                 | (TSK_WALK_ERROR, u') \<Rightarrow> (Some TSK_ERR_CALLEE, u')
                 | (TSK_WALK_CONT, u') \<Rightarrow> reg_block_loop rd fs cb a_end_blk (blk + 1) u')"
proof (cases "rd (blk * 4096) 4096")
  case None
  then show ?thesis
    using lt bs
    by (subst reg_block_loop.simps)
       (simp add: tsk_fs_read_block_def tsk_fs_read_def reg_read_full_def HBIN_SIZE_def)
next
  case (Some b)
  show ?thesis
  proof (cases "4096 \<le> length b")
    case False
    then show ?thesis
      using lt bs Some
      by (subst reg_block_loop.simps)
         (simp add: tsk_fs_read_block_def tsk_fs_read_def reg_read_full_def HBIN_SIZE_def Let_def)
  next
    case True
    then have v: "tsk_fs_block_set fs blk
                    {TSK_FS_BLOCK_FLAG_ALLOC, TSK_FS_BLOCK_FLAG_META, TSK_FS_BLOCK_FLAG_CONT,
                     TSK_FS_BLOCK_FLAG_RAW} (take 4096 b) = reg_block_view rd blk"
      using bs Some by (simp add: tsk_fs_block_set_def reg_block_view_def HBIN_SIZE_def)
    show ?thesis
      using lt bs Some True v
      apply (subst reg_block_loop.simps)
      apply (simp add: tsk_fs_read_block_def tsk_fs_read_def reg_read_full_def HBIN_SIZE_def
          Let_def min_def)
      apply (cases "cb (reg_block_view rd blk) u")
      subgoal for r u' by (cases r) simp_all
      done
  qed
qed

lemma reg_loop_prefix:
  assumes bs: "block_size fs = HBIN_SIZE"
    and "a_start_blk \<le> k" "k \<le> a_end_blk"
    and "\<forall>blk. a_start_blk \<le> blk \<and> blk < k \<longrightarrow>
           reg_read_full rd blk \<and> (\<forall>v. fst (cb (reg_block_view rd blk) v) = TSK_WALK_CONT)"
  shows "reg_block_loop rd fs cb a_end_blk a_start_blk u =
           reg_block_loop rd fs cb a_end_blk k
             (reg_deliver rd cb (map of_nat [unat a_start_blk..<unat k]) u)"
  using assms(2-)
proof (induction "unat k - unat a_start_blk" arbitrary: a_start_blk u)
  case 0
  then have "a_start_blk = k" by (simp add: word_le_nat_alt word_unat_eq_iff)
  then show ?case by (simp add: reg_deliver_def)
next
  case (Suc n)
  then have lt: "a_start_blk < k" by (simp add: word_less_nat_alt)
  then have lte: "a_start_blk < a_end_blk" using Suc.prems(2) by simp
  have suc: "unat (a_start_blk + 1) = unat a_start_blk + 1" using lt by (rule word_less_suc_unat)
  have le': "a_start_blk + 1 \<le> k" using lt suc by (simp add: word_le_nat_alt word_less_nat_alt)
  have full: "reg_read_full rd a_start_blk"
    and cont: "\<And>v. fst (cb (reg_block_view rd a_start_blk) v) = TSK_WALK_CONT"
    using Suc.prems(3) lt by auto
  obtain u' where cbu: "cb (reg_block_view rd a_start_blk) u = (TSK_WALK_CONT, u')"
    using cont [of u] by (cases "cb (reg_block_view rd a_start_blk) u") simp
  have rest: "\<forall>blk. a_start_blk + 1 \<le> blk \<and> blk < k \<longrightarrow>
           reg_read_full rd blk \<and> (\<forall>v. fst (cb (reg_block_view rd blk) v) = TSK_WALK_CONT)"
    using Suc.prems(3) suc by (auto simp: word_le_nat_alt)
  have n: "n = unat k - unat (a_start_blk + 1)" using Suc.hyps(2) suc by simp
  have upt: "[unat a_start_blk..<unat k] = unat a_start_blk # [unat (a_start_blk + 1)..<unat k]"
    using lt suc by (simp add: upt_rec [of "unat a_start_blk"] word_less_nat_alt)
  have "reg_block_loop rd fs cb a_end_blk a_start_blk u =
          reg_block_loop rd fs cb a_end_blk (a_start_blk + 1) u'"
    using reg_loop_step [OF bs lte, of rd cb u] full cbu by simp
  also have "\<dots> = reg_block_loop rd fs cb a_end_blk k
             (reg_deliver rd cb (map of_nat [unat (a_start_blk + 1)..<unat k]) u')"
    by (rule Suc.hyps(1) [OF n le' Suc.prems(2) rest])
  also have "reg_deliver rd cb (map of_nat [unat (a_start_blk + 1)..<unat k]) u' =
             reg_deliver rd cb (map of_nat [unat a_start_blk..<unat k]) u"
    using cbu by (simp add: upt reg_deliver_def)
  finally show ?case .
qed

text \<open>
  C7. For an in-bounds range, let the reads of the blocks from \<open>a_start_blk\<close> up to (not
  including) \<open>k\<close> be full and the callback return CONTINUE on them. Then the callback has
  been run exactly on these blocks, in ascending order, each with the flags ALLOC, META,
  CONT and RAW and the 4096 bytes read at \<open>blk \<times> 4096\<close>; and the walk returns 0 when \<open>k\<close>
  is the end of the range (the block \<open>a_end_blk\<close> itself is not visited) or the callback
  stops at \<open>k\<close>, and 1 when the read of block \<open>k\<close> is short or the callback fails at \<open>k\<close>.
\<close>

theorem reg_block_walk_delivers:
  assumes "block_size fs = HBIN_SIZE"
    and "first_block fs \<le> a_start_blk" "a_start_blk \<le> last_block fs"
    and "first_block fs \<le> a_end_blk" "a_end_blk \<le> last_block fs"
    and "a_start_blk \<le> k" "k \<le> a_end_blk"
    and "\<forall>blk. a_start_blk \<le> blk \<and> blk < k \<longrightarrow>
           reg_read_full rd blk \<and> (\<forall>v. fst (cb (reg_block_view rd blk) v) = TSK_WALK_CONT)"
    and "U = reg_deliver rd cb (map of_nat [unat a_start_blk..<unat k]) u"
  shows "(k = a_end_blk \<longrightarrow>
            reg_block_walk rd fs a_start_blk a_end_blk a_flags cb u = (None, U)) \<and>
         (k < a_end_blk \<and> \<not> reg_read_full rd k \<longrightarrow>
            reg_block_walk rd fs a_start_blk a_end_blk a_flags cb u = (Some TSK_ERR_CALLEE, U)) \<and>
         (k < a_end_blk \<and> reg_read_full rd k \<and>
          fst (cb (reg_block_view rd k) U) = TSK_WALK_STOP \<longrightarrow>
            reg_block_walk rd fs a_start_blk a_end_blk a_flags cb u =
              (None, snd (cb (reg_block_view rd k) U))) \<and>
         (k < a_end_blk \<and> reg_read_full rd k \<and>
          fst (cb (reg_block_view rd k) U) = TSK_WALK_ERROR \<longrightarrow>
            reg_block_walk rd fs a_start_blk a_end_blk a_flags cb u =
              (Some TSK_ERR_CALLEE, snd (cb (reg_block_view rd k) U)))"
proof -
  have w: "reg_block_walk rd fs a_start_blk a_end_blk a_flags cb u =
             reg_block_loop rd fs cb a_end_blk k U"
    using assms(2-5) reg_loop_prefix [OF assms(1,6,7,8), of u]
    by (simp add: reg_block_walk_def not_less [symmetric] assms(9))
  have e: "reg_block_loop rd fs cb a_end_blk a_end_blk U = (None, U)"
    by (subst reg_block_loop.simps) simp
  have s: "reg_block_loop rd fs cb a_end_blk k U =
             (if \<not> reg_read_full rd k then (Some TSK_ERR_CALLEE, U)
              else case cb (reg_block_view rd k) U of
                     (TSK_WALK_STOP, u') \<Rightarrow> (None, u')
                   | (TSK_WALK_ERROR, u') \<Rightarrow> (Some TSK_ERR_CALLEE, u')
                   | (TSK_WALK_CONT, u') \<Rightarrow> reg_block_loop rd fs cb a_end_blk (k + 1) u')"
    if "k < a_end_blk"
    using reg_loop_step [OF assms(1) that] .
  show ?thesis
    unfolding w using e s
    by (cases "cb (reg_block_view rd k) U") auto
qed

lemma ex_hive_full: "blk < 4 \<Longrightarrow> reg_read_full (image_reader ex_hive_disk) blk"
proof -
  assume "blk < 4"
  then have "unat blk < 4" by (simp add: word_less_nat_alt)
  then have "unat (blk * 4096) = unat blk * 4096"
    by (simp add: unat_word_ariths)
  with \<open>unat blk < 4\<close> show ?thesis
    by (simp add: reg_read_full_def image_reader_def)
qed

lemma ex_hive_short: "\<not> reg_read_full (image_reader ex_hive_disk) 4"
  by (simp add: reg_read_full_def image_reader_def)

lemma ex_hive_bs: "block_size ex_hive = HBIN_SIZE"
  by (simp add: ex_hive_def HBIN_SIZE_def)

theorem reg_block_walk_delivers_witness:
  "block_size ex_hive = HBIN_SIZE \<and>
   reg_block_walk (image_reader ex_hive_disk) ex_hive 1 3 {} log_cb [] = (None, [1, 2]) \<and>
   reg_block_walk (image_reader ex_hive_disk) ex_hive 3 5 {} log_cb [] =
     (Some TSK_ERR_CALLEE, [3]) \<and>
   reg_block_walk (image_reader ex_hive_disk) ex_hive 1 4 {} stop_cb [] = (None, [1, 2]) \<and>
   reg_block_walk (image_reader ex_hive_disk) ex_hive 1 4 {} error_cb [] =
     (Some TSK_ERR_CALLEE, [1, 2])"
proof -
  let ?rd = "image_reader ex_hive_disk"
  have fb: "first_block ex_hive \<le> x" for x by (simp add: ex_hive_def)
  have lb: "x \<le> 5 \<Longrightarrow> x \<le> last_block ex_hive" for x
  proof -
    assume "x \<le> 5"
    moreover have "(5 :: TSK_DADDR_T) \<le> last_block ex_hive" by (simp add: ex_hive_def)
    ultimately show ?thesis by (rule order_trans)
  qed
  have full: "blk < k \<Longrightarrow> k \<le> 4 \<Longrightarrow> reg_read_full ?rd blk" for blk k :: TSK_DADDR_T
    by (rule ex_hive_full) simp
  have a: "reg_block_walk ?rd ex_hive 1 3 {} log_cb [] = (None, [1, 2])"
  proof -
    have h: "\<forall>blk. 1 \<le> blk \<and> blk < 3 \<longrightarrow>
               reg_read_full ?rd blk \<and> (\<forall>v. fst (log_cb (reg_block_view ?rd blk) v) = TSK_WALK_CONT)"
      using full [of _ 3] by (simp add: log_cb_def)
    have U: "[1, 2] = reg_deliver ?rd log_cb (map of_nat [unat (1 :: TSK_DADDR_T)..<unat (3 :: TSK_DADDR_T)]) []"
      by (simp add: reg_deliver_def log_cb_def reg_block_view_def upt_rec)
    from reg_block_walk_delivers [OF ex_hive_bs fb lb fb lb _ _ h U, of 3 "{}"]
    show ?thesis by simp
  qed
  have b: "reg_block_walk ?rd ex_hive 3 5 {} log_cb [] = (Some TSK_ERR_CALLEE, [3])"
  proof -
    have h: "\<forall>blk. 3 \<le> blk \<and> blk < 4 \<longrightarrow>
               reg_read_full ?rd blk \<and> (\<forall>v. fst (log_cb (reg_block_view ?rd blk) v) = TSK_WALK_CONT)"
      using full [of _ 4] by (simp add: log_cb_def)
    have U: "[3] = reg_deliver ?rd log_cb (map of_nat [unat (3 :: TSK_DADDR_T)..<unat (4 :: TSK_DADDR_T)]) []"
      by (simp add: reg_deliver_def log_cb_def reg_block_view_def upt_rec)
    from reg_block_walk_delivers [OF ex_hive_bs fb lb fb lb _ _ h U, of 5 "{}"] ex_hive_short
    show ?thesis by simp
  qed
  have c: "reg_block_walk ?rd ex_hive 1 4 {} stop_cb [] = (None, [1, 2])"
  proof -
    have h: "\<forall>blk. 1 \<le> blk \<and> blk < 2 \<longrightarrow>
               reg_read_full ?rd blk \<and> (\<forall>v. fst (stop_cb (reg_block_view ?rd blk) v) = TSK_WALK_CONT)"
      using full [of _ 2] by (auto simp: stop_cb_def reg_block_view_def)
    have U: "[1] = reg_deliver ?rd stop_cb (map of_nat [unat (1 :: TSK_DADDR_T)..<unat (2 :: TSK_DADDR_T)]) []"
      by (simp add: reg_deliver_def stop_cb_def reg_block_view_def upt_rec)
    from reg_block_walk_delivers [OF ex_hive_bs fb lb fb lb _ _ h U, of 4 "{}"] full [of 2 4]
    show ?thesis by (simp add: stop_cb_def reg_block_view_def)
  qed
  have d: "reg_block_walk ?rd ex_hive 1 4 {} error_cb [] = (Some TSK_ERR_CALLEE, [1, 2])"
  proof -
    have h: "\<forall>blk. 1 \<le> blk \<and> blk < 2 \<longrightarrow>
               reg_read_full ?rd blk \<and> (\<forall>v. fst (error_cb (reg_block_view ?rd blk) v) = TSK_WALK_CONT)"
      using full [of _ 2] by (auto simp: error_cb_def reg_block_view_def)
    have U: "[1] = reg_deliver ?rd error_cb (map of_nat [unat (1 :: TSK_DADDR_T)..<unat (2 :: TSK_DADDR_T)]) []"
      by (simp add: reg_deliver_def error_cb_def reg_block_view_def upt_rec)
    from reg_block_walk_delivers [OF ex_hive_bs fb lb fb lb _ _ h U, of 4 "{}"] full [of 2 4]
    show ?thesis by (simp add: error_cb_def reg_block_view_def)
  qed
  from ex_hive_bs a b c d show ?thesis by blast
qed

section \<open>The FAT block walker on the example\<close>

lemma ex_burst:
  "TSK_FS_BLOCK_WALK_FLAG_CONT \<in> F \<Longrightarrow>
   fat_predata_burst ex_fatfs F log_cb 80 (img_slice ex_disk 36864 4096) 0 72 [] =
   (TSK_WALK_CONT, 80, [72, 73, 74, 75, 76, 77, 78, 79])"
  by (simp add: fat_predata_burst.simps ex_fatfs_def log_cb_def tsk_fs_block_set_def Let_def)

lemma ex_predata:
  assumes F: "TSK_FS_BLOCK_WALK_FLAG_CONT \<in> F"
  shows "fat_predata_walk (image_reader ex_disk) ex_fatfs F log_cb 80 72 [] =
           (Inr 80, [72, 73, 74, 75, 76, 77, 78, 79])"
proof -
  have len: "unat (block_size (fs_info ex_fatfs) * 8) = 4096" by (simp add: ex_fatfs_def)
  have rd: "tsk_fs_read_block (image_reader ex_disk) (fs_info ex_fatfs) 72 (replicate 4096 0) 4096 =
              (Some 4096, img_slice ex_disk 36864 4096)"
    by (simp add: tsk_fs_read_block_def tsk_fs_read_image ex_fatfs_def)
  have c1: "(72 :: TSK_DADDR_T) < firstclustsect ex_fatfs \<and> (72 :: TSK_DADDR_T) \<le> 80"
    by (simp add: ex_fatfs_def)
  have c2: "\<not> ((80 :: TSK_DADDR_T) < firstclustsect ex_fatfs \<and> (80 :: TSK_DADDR_T) \<le> 80)"
    by (simp add: ex_fatfs_def)
  show ?thesis
    apply (subst fat_predata_walk.simps)
    apply (simp only: c1 if_True len Let_def rd prod.case ex_burst [OF F])
    apply (subst fat_predata_walk.simps)
    apply (simp only: c2 if_False)
    apply simp
    done
qed

lemma ex_walk_72_80:
  "fatfs_block_walk ex_consts (image_reader ex_disk) ex_fatfs 72 80 {} log_cb 0 [] =
     Some (None, [72, 73, 74, 75, 76, 77, 78, 79], ex_fatfs)"
proof -
  have r: "first_block (fs_info ex_fatfs) = 0" "last_block (fs_info ex_fatfs) = 262143"
    "firstclustsect ex_fatfs = 80"
    by (simp_all add: ex_fatfs_def)
  show ?thesis
    unfolding fatfs_block_walk_def Let_def
    by (simp add: r ex_predata)
qed

lemma ex_getFAT_2:
  "\<exists>S. fatfs_getFAT ex_consts (image_reader ex_disk) ex_fatfs 2 0 = Some (None, 0, S)"
  unfolding fatfs_getFAT_def
  by (simp add: cache_eval ex_fatfs_def ex_consts_def fatc_bytes_def tsk_getu16_def
      fat_sanity_def FATFS_16_MASK_def img_slice_2)
     (simp add: ex_disk_def)

lemma ex_flags_80:
  "\<exists>S. fatfs_block_getflags ex_consts (image_reader ex_disk) ex_fatfs 80 0 =
     Some ({TSK_FS_BLOCK_FLAG_CONT, TSK_FS_BLOCK_FLAG_UNALLOC}, S)"
proof -
  from ex_getFAT_2 obtain S where
    g: "fatfs_getFAT ex_consts (image_reader ex_disk) ex_fatfs 2 0 = Some (None, 0, S)" by blast
  have c: "FATFS_SECT_2_CLUST ex_fatfs 80 = 2" by (simp add: FATFS_SECT_2_CLUST_def ex_fatfs_def)
  have "fatfs_is_sectalloc ex_consts (image_reader ex_disk) ex_fatfs 80 0 = Some (Inr False, S)"
    unfolding fatfs_is_sectalloc_def c fatfs_is_clustalloc_def g
    by (simp add: ex_fatfs_def FATFS_UNALLOC_def)
  then show ?thesis
    unfolding fatfs_block_getflags_def by (simp add: ex_fatfs_def)
qed


text \<open>
  C4. A walk over the sectors 72 to 80 of the example file system, whose first cluster
  sector is 80, with no filter and a callback that always continues: the pre-data phase
  delivers the sectors 72 to 79 and the walk returns 0 from the test after that phase
  (\<^verbatim>\<open>addr >= a_end_blk\<close> with both equal to 80). Sector 80 lies in the range and is
  classified CONT and UNALLOC, which no filter excludes; it is never delivered.
\<close>

theorem fatfs_block_walk_misses_end_sector:
  "fatfs_block_walk ex_consts (image_reader ex_disk) ex_fatfs 72 80 {} log_cb 0 [] =
     Some (None, [72, 73, 74, 75, 76, 77, 78, 79], ex_fatfs) \<and>
   (\<exists>S. fatfs_block_getflags ex_consts (image_reader ex_disk) ex_fatfs 80 0 =
          Some ({TSK_FS_BLOCK_FLAG_CONT, TSK_FS_BLOCK_FLAG_UNALLOC}, S))"
  using ex_walk_72_80 ex_flags_80 by blast

end
